theory Spec2Isabelle
  imports Main "HOL-Library.AList"
begin

section \<open>Text helpers of the Python runtime\<close>

text \<open>
  Python strings are modelled as \<open>string\<close>; the code points that matter below are the
  line feed, the carriage return and the white space that \<open>str.strip\<close> and the
  splitting of a class attribute recognise.
\<close>

definition LF :: char where
  "LF = CHR 0x0A"

definition CR :: char where
  "CR = CHR 0x0D"

definition is_space :: "char \<Rightarrow> bool" where
  "is_space c = (c \<in> {CHR 0x09, CHR 0x0A, CHR 0x0B, CHR 0x0C, CHR 0x0D,
                        CHR 0x1C, CHR 0x1D, CHR 0x1E, CHR 0x1F, CHR 0x20, CHR 0x85, CHR 0xA0})"

text \<open>\<open>s.replace("\r\n", "\n")\<close>: a left-to-right scan for the two-character pattern.\<close>

fun replace_crlf :: "string \<Rightarrow> string" where
  "replace_crlf (c # d # cs) =
     (if c = CR \<and> d = LF then LF # replace_crlf cs else c # replace_crlf (d # cs))"
| "replace_crlf cs = cs"

text \<open>\<open>s.replace("\r", "\n")\<close>.\<close>

definition replace_cr :: "string \<Rightarrow> string" where
  "replace_cr s = map (\<lambda>c. if c = CR then LF else c) s"

definition normalize_newlines :: "string \<Rightarrow> string" where
  "normalize_newlines s = replace_cr (replace_crlf s)"

text \<open>\<open>s.split("\n")\<close>: always at least one part.\<close>

fun split_nl :: "string \<Rightarrow> string list" where
  "split_nl [] = [[]]"
| "split_nl (c # cs) =
     (if c = LF then [] # split_nl cs
      else (case split_nl cs of [] \<Rightarrow> [[c]] | p # ps \<Rightarrow> (c # p) # ps))"

text \<open>\<open>sep.join(xs)\<close>.\<close>

fun py_join :: "string \<Rightarrow> string list \<Rightarrow> string" where
  "py_join sep [] = []"
| "py_join sep [x] = x"
| "py_join sep (x # y # ys) = x @ sep @ py_join sep (y # ys)"

text \<open>\<open>s.strip()\<close>.\<close>

definition py_strip :: "string \<Rightarrow> string" where
  "py_strip s = rev (dropWhile is_space (rev (dropWhile is_space s)))"

text \<open>\<open>s.lower()\<close> on the ASCII letters.\<close>

definition lower_char :: "char \<Rightarrow> char" where
  "lower_char c =
     (if (65::nat) \<le> of_char c \<and> (of_char c :: nat) \<le> 90 then char_of ((of_char c :: nat) + 32) else c)"

definition py_lower :: "string \<Rightarrow> string" where
  "py_lower s = map lower_char s"

text \<open>\<open>sub in s\<close> for strings.\<close>

fun starts_with :: "string \<Rightarrow> string \<Rightarrow> bool" where
  "starts_with [] s = True"
| "starts_with (p # ps) [] = False"
| "starts_with (p # ps) (c # cs) = (p = c \<and> starts_with ps cs)"

fun contains :: "string \<Rightarrow> string \<Rightarrow> bool" where
  "contains sub [] = (sub = [])"
| "contains sub (c # cs) = (starts_with sub (c # cs) \<or> contains sub cs)"

text \<open>The white-space separated tokens of an attribute value (the class list).\<close>

fun tokens_from :: "string \<Rightarrow> string \<Rightarrow> string list" where
  "tokens_from cur [] = (if cur = [] then [] else [cur])"
| "tokens_from cur (c # cs) =
     (if is_space c then (if cur = [] then [] else [cur]) @ tokens_from [] cs
      else tokens_from (cur @ [c]) cs)"

definition tokens :: "string \<Rightarrow> string list" where
  "tokens s = tokens_from [] s"

section \<open>The document tree\<close>

text \<open>
  The parsed document is a tree of text nodes and elements; an element has a tag name,
  its attributes in order, and its children. The parsed document itself is an element
  named \<open>[document]\<close> whose children are the top-level nodes; queries look at its
  descendants only. A reference to an element of the tree is the path of child indices
  that leads to it from the root, paired with the element found there.
\<close>

datatype node = Text string | Elem string "(string \<times> string) list" "node list"

type_synonym path = "nat list"

type_synonym elref = "path \<times> node"

fun children :: "node \<Rightarrow> node list" where
  "children (Text s) = []"
| "children (Elem t a ks) = ks"

fun get_at :: "node \<Rightarrow> path \<Rightarrow> node option" where
  "get_at n [] = Some n"
| "get_at (Text s) (i # p) = None"
| "get_at (Elem t a ks) (i # p) = (if i < length ks then get_at (ks ! i) p else None)"

text \<open>All text nodes below a node, in document order (\<open>_all_strings\<close>).\<close>

fun all_strings :: "node \<Rightarrow> string list" where
  "all_strings (Text s) = [s]"
| "all_strings (Elem t a ks) = concat (map all_strings ks)"

text \<open>\<open>el.get_text(separator="\n", strip=False)\<close>.\<close>

definition get_text_nl :: "node \<Rightarrow> string" where
  "get_text_nl el = py_join [LF] (all_strings el)"

text \<open>\<open>el.get_text(strip=True)\<close>: each string stripped, empty ones dropped, no separator.\<close>

definition get_text_strip :: "node \<Rightarrow> string" where
  "get_text_strip el = concat (filter (\<lambda>s. s \<noteq> []) (map py_strip (all_strings el)))"

section \<open>Selectors\<close>

text \<open>
  The selectors of the source are chains of compound selectors joined by the descendant
  combinator. A compound selector is a list of simple conditions on one element.
\<close>

datatype simple = Tag string | Cls string | Ident string | AttrEq string string

type_synonym compound = "simple list"

type_synonym selector = "compound list"

definition class_list :: "(string \<times> string) list \<Rightarrow> string list" where
  "class_list a = (case map_of a ''class'' of None \<Rightarrow> [] | Some v \<Rightarrow> tokens v)"

fun matches_simple :: "string \<Rightarrow> (string \<times> string) list \<Rightarrow> simple \<Rightarrow> bool" where
  "matches_simple t a (Tag n) = (t = n)"
| "matches_simple t a (Cls c) = (c \<in> set (class_list a))"
| "matches_simple t a (Ident i) = (map_of a ''id'' = Some i)"
| "matches_simple t a (AttrEq n v) = (map_of a n = Some v)"

definition matches :: "compound \<Rightarrow> string \<Rightarrow> (string \<times> string) list \<Rightarrow> bool" where
  "matches c t a = list_all (matches_simple t a) c"

text \<open>
  The matches of a selector below a node, in document order. The first argument is the
  part of the chain not yet matched by an ancestor.
\<close>

fun select_from :: "selector \<Rightarrow> path \<Rightarrow> node \<Rightarrow> elref list"
  and select_kids :: "selector \<Rightarrow> path \<Rightarrow> nat \<Rightarrow> node list \<Rightarrow> elref list" where
  "select_from cs p (Text s) = []"
| "select_from [] p (Elem t a ks) = []"
| "select_from [c] p (Elem t a ks) =
     (if matches c t a then [(p, Elem t a ks)] else []) @ select_kids [c] p 0 ks"
| "select_from (c # d # cs) p (Elem t a ks) =
     select_kids (if matches c t a then d # cs else c # d # cs) p 0 ks"
| "select_kids cs p i [] = []"
| "select_kids cs p i (k # ks) = select_from cs (p @ [i]) k @ select_kids cs p (Suc i) ks"

text \<open>\<open>soup.select(sel)\<close> and \<open>soup.select_one(sel)\<close>.\<close>

definition select :: "selector \<Rightarrow> node \<Rightarrow> elref list" where
  "select sel soup = select_kids sel [] 0 (children soup)"

definition select_one :: "selector \<Rightarrow> node \<Rightarrow> elref option" where
  "select_one sel soup = (case select sel soup of [] \<Rightarrow> None | r # rs \<Rightarrow> Some r)"

definition sel_h1 :: selector where
  "sel_h1 = [[Tag ''h1'']]"

definition sel_tag :: "string \<Rightarrow> selector" where
  "sel_tag side = [[Cls ''panel'', Cls side], [Cls ''side-label''], [Cls ''tag'']]"

definition sel_section :: "string \<Rightarrow> selector" where
  "sel_section side = [[Cls ''panel'', Cls side], [Cls ''section'']]"

definition sel_section_p :: "string \<Rightarrow> selector" where
  "sel_section_p side = [[Cls ''panel'', Cls side], [Cls ''section''], [Tag ''p'']]"

definition sel_section_h3 :: "string \<Rightarrow> selector" where
  "sel_section_h3 side = [[Cls ''panel'', Cls side], [Cls ''section''], [Tag ''h3'']]"

definition sel_pagenum :: selector where
  "sel_pagenum = [[Tag ''footer''], [Cls ''pagenum'']]"

definition sel_footer_strong :: selector where
  "sel_footer_strong = [[Tag ''footer''], [Tag ''strong'']]"

section \<open>Field schema\<close>

definition FIELD_KEYS_v5 :: "string list" where
  "FIELD_KEYS_v5 =
     [''title'', ''left_label'', ''right_label'',
      ''left_people'', ''left_process'', ''left_technology'', ''left_data'', ''left_output'',
      ''right_people'', ''right_process'', ''right_technology'', ''right_data'', ''right_output'',
      ''page_number'', ''footer_summary'']"

definition FIELD_KEYS_v9 :: "string list" where
  "FIELD_KEYS_v9 =
     [''title'', ''left_label'', ''right_label'',
      ''left_people'', ''left_process'', ''left_technology'', ''left_data'', ''left_output'',
      ''right_people'', ''right_process'', ''right_technology'', ''right_data'', ''right_output'',
      ''user_notes'']"

definition DEFAULTS_v5 :: "string \<rightharpoonup> string" where
  "DEFAULTS_v5 =
     (map_of (map (\<lambda>k. (k, ''TBD'')) FIELD_KEYS_v5))
       (''page_number'' \<mapsto> ''1'',
        ''left_label'' \<mapsto> ''AS-IS (danes)'',
        ''right_label'' \<mapsto> ''Ambicija (to-be)'',
        ''footer_summary'' \<mapsto> ''Digitalizacija in centralizacija procesa z avtomatskimi kontrolami.'')"

definition DEFAULTS_v9 :: "string \<rightharpoonup> string" where
  "DEFAULTS_v9 =
     (map_of (map (\<lambda>k. (k, ''TBD'')) FIELD_KEYS_v9))
       (''left_label'' \<mapsto> ''AS-IS (danes)'',
        ''right_label'' \<mapsto> ''Ambicija (to-be)'',
        ''user_notes'' \<mapsto> '''')"

text \<open>\<open>d.get(k, dflt)\<close>.\<close>

definition dict_get :: "(string \<rightharpoonup> string) \<Rightarrow> string \<Rightarrow> string \<Rightarrow> string" where
  "dict_get d k dflt = (case d k of None \<Rightarrow> dflt | Some v \<Rightarrow> v)"

text \<open>\<open>not fields.get(k)\<close>: the key is missing or its value is the empty string.\<close>

definition falsy :: "string option \<Rightarrow> bool" where
  "falsy v = (case v of None \<Rightarrow> True | Some s \<Rightarrow> s = [])"

text \<open>
  The closing loop of \<open>parse_html_fields\<close>:
  \<open>for k in FIELD_KEYS: if not fields.get(k): fields[k] = DEFAULTS.get(k, "TBD")\<close>.
\<close>

fun fill_defaults :: "(string \<rightharpoonup> string) \<Rightarrow> string list \<Rightarrow> (string \<rightharpoonup> string) \<Rightarrow> (string \<rightharpoonup> string)" where
  "fill_defaults dflts [] fields = fields"
| "fill_defaults dflts (k # ks) fields =
     fill_defaults dflts ks
       (if falsy (fields k) then fields(k \<mapsto> dict_get dflts k ''TBD'') else fields)"

section \<open>Translation adapter\<close>

text \<open>
  The translator library is an injected capability: \<open>None\<close> when it cannot be imported,
  otherwise a function of source language, target language and text whose result
  \<open>None\<close> stands for a raised exception. \<open>translate_text\<close> returns its result together
  with the list of calls it made to the capability.
\<close>

type_synonym translator = "string \<Rightarrow> string \<Rightarrow> string \<Rightarrow> string option"

definition translate_text :: "translator option \<Rightarrow> string \<Rightarrow> string \<Rightarrow> string \<Rightarrow> string \<times> (string \<times> string \<times> string) list" where
  "translate_text GT txt src dest =
     (if txt = [] then (txt, [])
      else (case GT of
              None \<Rightarrow> (txt, [])
            | Some gt \<Rightarrow>
                if src = dest then (txt, [])
                else (case gt src dest txt of
                        Some r \<Rightarrow> (r, [(src, dest, txt)])
                      | None \<Rightarrow> (txt, [(src, dest, txt)]))))"

section \<open>Rich-text codec (variant 9.1)\<close>

text \<open>\<open>_text_with_newlines(el)\<close> for an element that is present.\<close>

definition text_with_newlines :: "node \<Rightarrow> string" where
  "text_with_newlines el = replace_cr (replace_crlf (get_text_nl el))"

text \<open>
  The loop of \<open>set_rich_text\<close> over the parts: a text node per part and a fresh
  \<open>br\<close> element after every part but the last.
\<close>

fun rich_nodes :: "string list \<Rightarrow> node list" where
  "rich_nodes [] = []"
| "rich_nodes [part] = [Text part]"
| "rich_nodes (part # q # parts) = Text part # Elem ''br'' [] [] # rich_nodes (q # parts)"

text \<open>The children of an element after \<open>set_rich_text(el, value)\<close>.\<close>

definition rich_children :: "string \<Rightarrow> node list" where
  "rich_children v = rich_nodes (split_nl (replace_cr (replace_crlf v)))"

section \<open>Extractor\<close>

text \<open>\<open>sec(idx, arr)\<close> of either variant, given the text extraction of the variant.\<close>

definition sec :: "(node \<Rightarrow> string) \<Rightarrow> nat \<Rightarrow> elref list \<Rightarrow> string" where
  "sec txt idx arr = (if length arr > idx then txt (snd (arr ! idx)) else [])"

text \<open>\<open>get_text(selector)\<close> of either variant.\<close>

definition get_text_sel :: "(node \<Rightarrow> string) \<Rightarrow> node \<Rightarrow> selector \<Rightarrow> string" where
  "get_text_sel txt soup sel = (case select_one sel soup of None \<Rightarrow> [] | Some el \<Rightarrow> txt (snd el))"

text \<open>The dictionary literal of \<open>parse_html_fields\<close> in \<open>as_is_to_be_9_1.py\<close>.\<close>

definition raw_fields_v9 :: "node \<Rightarrow> (string \<rightharpoonup> string)" where
  "raw_fields_v9 soup =
     (let left_sections = select (sel_section_p ''left'') soup;
          right_sections = select (sel_section_p ''right'') soup;
          user_section = select_one (sel_section_p ''user'') soup
      in [''title'' \<mapsto> get_text_sel text_with_newlines soup sel_h1,
          ''left_label'' \<mapsto> get_text_sel text_with_newlines soup (sel_tag ''left''),
          ''right_label'' \<mapsto> get_text_sel text_with_newlines soup (sel_tag ''right''),
          ''left_people'' \<mapsto> sec text_with_newlines 0 left_sections,
          ''left_process'' \<mapsto> sec text_with_newlines 1 left_sections,
          ''left_technology'' \<mapsto> sec text_with_newlines 2 left_sections,
          ''left_data'' \<mapsto> sec text_with_newlines 3 left_sections,
          ''left_output'' \<mapsto> sec text_with_newlines 4 left_sections,
          ''right_people'' \<mapsto> sec text_with_newlines 0 right_sections,
          ''right_process'' \<mapsto> sec text_with_newlines 1 right_sections,
          ''right_technology'' \<mapsto> sec text_with_newlines 2 right_sections,
          ''right_data'' \<mapsto> sec text_with_newlines 3 right_sections,
          ''right_output'' \<mapsto> sec text_with_newlines 4 right_sections,
          ''user_notes'' \<mapsto> (case user_section of None \<Rightarrow> [] | Some el \<Rightarrow> text_with_newlines (snd el))])"

definition parse_soup_v9 :: "node \<Rightarrow> (string \<rightharpoonup> string)" where
  "parse_soup_v9 soup = fill_defaults DEFAULTS_v9 FIELD_KEYS_v9 (raw_fields_v9 soup)"

text \<open>The dictionary literal of \<open>parse_html_fields\<close> in \<open>as_is_to_be_5.py\<close>.\<close>

definition raw_fields_v5 :: "node \<Rightarrow> (string \<rightharpoonup> string)" where
  "raw_fields_v5 soup =
     (let left_sections = select (sel_section_p ''left'') soup;
          right_sections = select (sel_section_p ''right'') soup
      in [''title'' \<mapsto> get_text_sel get_text_strip soup sel_h1,
          ''left_label'' \<mapsto> get_text_sel get_text_strip soup (sel_tag ''left''),
          ''right_label'' \<mapsto> get_text_sel get_text_strip soup (sel_tag ''right''),
          ''left_people'' \<mapsto> sec get_text_strip 0 left_sections,
          ''left_process'' \<mapsto> sec get_text_strip 1 left_sections,
          ''left_technology'' \<mapsto> sec get_text_strip 2 left_sections,
          ''left_data'' \<mapsto> sec get_text_strip 3 left_sections,
          ''left_output'' \<mapsto> sec get_text_strip 4 left_sections,
          ''right_people'' \<mapsto> sec get_text_strip 0 right_sections,
          ''right_process'' \<mapsto> sec get_text_strip 1 right_sections,
          ''right_technology'' \<mapsto> sec get_text_strip 2 right_sections,
          ''right_data'' \<mapsto> sec get_text_strip 3 right_sections,
          ''right_output'' \<mapsto> sec get_text_strip 4 right_sections,
          ''page_number'' \<mapsto> get_text_sel get_text_strip soup sel_pagenum,
          ''footer_summary'' \<mapsto> get_text_sel get_text_strip soup sel_footer_strong])"

definition parse_soup_v5 :: "node \<Rightarrow> (string \<rightharpoonup> string)" where
  "parse_soup_v5 soup = fill_defaults DEFAULTS_v5 FIELD_KEYS_v5 (raw_fields_v5 soup)"

text \<open>
  The exceptions of the two functions: \<open>KeyError\<close> from \<open>fields[k]\<close> in
  \<open>apply_fields_to_html\<close>, and the exception with which the markup parser of the library
  rejects a string (\<open>ParserRejectedMarkup\<close>).
\<close>

datatype error = KeyError | ParserRejectedMarkup

text \<open>
  \<open>parse_html_fields(html)\<close>: the markup parser of the library, \<open>BeautifulSoup(html,
  "html.parser")\<close>, is a parameter. It either returns the parsed tree or raises; the call is
  not guarded in the source, so that what the parser raises leaves \<open>parse_html_fields\<close>.
\<close>

definition parse_html_fields_v9 :: "(string \<Rightarrow> error + node) \<Rightarrow> string \<Rightarrow> error + (string \<rightharpoonup> string)" where
  "parse_html_fields_v9 BeautifulSoup html =
     (case BeautifulSoup html of
        Inl e \<Rightarrow> Inl e
      | Inr soup \<Rightarrow> Inr (parse_soup_v9 soup))"

definition parse_html_fields_v5 :: "(string \<Rightarrow> error + node) \<Rightarrow> string \<Rightarrow> error + (string \<rightharpoonup> string)" where
  "parse_html_fields_v5 BeautifulSoup html =
     (case BeautifulSoup html of
        Inl e \<Rightarrow> Inl e
      | Inr soup \<Rightarrow> Inr (parse_soup_v5 soup))"

section \<open>Vocabulary of the properties\<close>

text \<open>A node that is a text node or an empty \<open>br\<close> element.\<close>

fun text_or_br :: "node \<Rightarrow> bool" where
  "text_or_br (Text s) = True"
| "text_or_br (Elem t a ks) = (t = ''br'' \<and> a = [] \<and> ks = [])"

text \<open>A document in which none of the extractor's queries finds an element.\<close>

definition no_slot_v9 :: "node \<Rightarrow> bool" where
  "no_slot_v9 soup =
     (select sel_h1 soup = [] \<and> select (sel_tag ''left'') soup = [] \<and>
      select (sel_tag ''right'') soup = [] \<and> select (sel_section_p ''left'') soup = [] \<and>
      select (sel_section_p ''right'') soup = [] \<and> select (sel_section_p ''user'') soup = [])"

definition no_slot_v5 :: "node \<Rightarrow> bool" where
  "no_slot_v5 soup =
     (select sel_h1 soup = [] \<and> select (sel_tag ''left'') soup = [] \<and>
      select (sel_tag ''right'') soup = [] \<and> select (sel_section_p ''left'') soup = [] \<and>
      select (sel_section_p ''right'') soup = [] \<and> select sel_pagenum soup = [] \<and>
      select sel_footer_strong soup = [])"

text \<open>The parse of the empty string.\<close>

definition empty_doc :: node where
  "empty_doc = Elem ''[document]'' [] []"

text \<open>
  The structural slot of every field: the query of the extractor and the position among
  its matches from which the field is read. \<open>slot_element\<close> is the element of the
  document in the slot, if there is one, and \<open>slot_blank\<close> holds when the slot is absent
  from the document or the text of its element extracts to the empty string.
\<close>

definition slots_v9 :: "(string \<times> selector \<times> nat) list" where
  "slots_v9 =
     [(''title'', sel_h1, 0),
      (''left_label'', sel_tag ''left'', 0),
      (''right_label'', sel_tag ''right'', 0),
      (''left_people'', sel_section_p ''left'', 0),
      (''left_process'', sel_section_p ''left'', 1),
      (''left_technology'', sel_section_p ''left'', 2),
      (''left_data'', sel_section_p ''left'', 3),
      (''left_output'', sel_section_p ''left'', 4),
      (''right_people'', sel_section_p ''right'', 0),
      (''right_process'', sel_section_p ''right'', 1),
      (''right_technology'', sel_section_p ''right'', 2),
      (''right_data'', sel_section_p ''right'', 3),
      (''right_output'', sel_section_p ''right'', 4),
      (''user_notes'', sel_section_p ''user'', 0)]"

definition slots_v5 :: "(string \<times> selector \<times> nat) list" where
  "slots_v5 =
     [(''title'', sel_h1, 0),
      (''left_label'', sel_tag ''left'', 0),
      (''right_label'', sel_tag ''right'', 0),
      (''left_people'', sel_section_p ''left'', 0),
      (''left_process'', sel_section_p ''left'', 1),
      (''left_technology'', sel_section_p ''left'', 2),
      (''left_data'', sel_section_p ''left'', 3),
      (''left_output'', sel_section_p ''left'', 4),
      (''right_people'', sel_section_p ''right'', 0),
      (''right_process'', sel_section_p ''right'', 1),
      (''right_technology'', sel_section_p ''right'', 2),
      (''right_data'', sel_section_p ''right'', 3),
      (''right_output'', sel_section_p ''right'', 4),
      (''page_number'', sel_pagenum, 0),
      (''footer_summary'', sel_footer_strong, 0)]"

definition slot_element :: "selector \<times> nat \<Rightarrow> node \<Rightarrow> node option" where
  "slot_element sl soup =
     (let arr = select (fst sl) soup
      in if snd sl < length arr then Some (snd (arr ! snd sl)) else None)"

definition slot_blank :: "(node \<Rightarrow> string) \<Rightarrow> selector \<times> nat \<Rightarrow> node \<Rightarrow> bool" where
  "slot_blank txt sl soup = (case slot_element sl soup of None \<Rightarrow> True | Some el \<Rightarrow> txt el = [])"

text \<open>
  A slide whose right panel has three sections only and whose title has no text, and a
  document that is no slide at all.
\<close>

definition sparse_slide :: node where
  "sparse_slide =
     Elem ''[document]'' []
       [Elem ''html'' []
          [Elem ''body'' []
             [Elem ''h1'' [] [],
              Elem ''div'' [(''class'', ''panel left'')]
                [Elem ''div'' [(''class'', ''side-label'')] [Elem ''span'' [(''class'', ''tag'')] [Text ''AS'']],
                 Elem ''div'' [(''class'', ''section'')] [Elem ''h3'' [] [Text ''A''], Elem ''p'' [] [Text ''X1'']]],
              Elem ''div'' [(''class'', ''panel right'')]
                [Elem ''div'' [(''class'', ''section'')] [Elem ''h3'' [] [Text ''A''], Elem ''p'' [] [Text ''Y1'']],
                 Elem ''div'' [(''class'', ''section'')] [Elem ''h3'' [] [Text ''B''], Elem ''p'' [] []],
                 Elem ''div'' [(''class'', ''section'')] [Elem ''h3'' [] [Text ''C''], Elem ''p'' [] [Text ''Y3'']]]]]]"

definition plain_page :: node where
  "plain_page = Elem ''[document]'' [] [Elem ''div'' [] [Text ''hello'', Elem ''b'' [] [Text ''!'']]]"

text \<open>
  The parser of the library rejects some strings: \<open>html.parser\<close> of Python 3.11 fails on
  the string \<open><![0>\<close>, and the library raises \<open>ParserRejectedMarkup\<close> for it.
  \<open>rejecting_parser\<close> is a parser with that behaviour on that string, for the examples.
\<close>

definition rejecting_parser :: "string \<Rightarrow> error + node" where
  "rejecting_parser html =
     (if html = ''<![0>'' then Inl ParserRejectedMarkup
      else if html = ''<div>hello<b>!</b></div>'' then Inr plain_page
      else Inr empty_doc)"

section \<open>Mutating the tree\<close>

text \<open>
  The source mutates the parsed tree through element references. In the model a
  mutation takes the path of the element and returns the new tree.
\<close>

fun modify_at :: "path \<Rightarrow> (node \<Rightarrow> node) \<Rightarrow> node \<Rightarrow> node" where
  "modify_at [] f n = f n"
| "modify_at (i # p) f n =
     (case n of
        Text s \<Rightarrow> Text s
      | Elem t a ks \<Rightarrow>
          if i < length ks then Elem t a (ks[i := modify_at p f (ks ! i)]) else Elem t a ks)"

text \<open>\<open>el.clear()\<close> followed by appending the nodes \<open>new\<close>.\<close>

fun set_children :: "node list \<Rightarrow> node \<Rightarrow> node" where
  "set_children new (Text s) = Text s"
| "set_children new (Elem t a ks) = Elem t a new"

text \<open>\<open>el[name] = v\<close>: an attribute keeps its place when present and is added last otherwise.\<close>

fun set_attr :: "string \<Rightarrow> string \<Rightarrow> node \<Rightarrow> node" where
  "set_attr name v (Text s) = Text s"
| "set_attr name v (Elem t a ks) = Elem t (AList.update name v a) ks"

fun drop_child :: "nat \<Rightarrow> node \<Rightarrow> node" where
  "drop_child i (Text s) = Text s"
| "drop_child i (Elem t a ks) = Elem t a (take i ks @ drop (Suc i) ks)"

text \<open>\<open>el.decompose()\<close> for the element at a path; the document itself is never removed.\<close>

definition remove_at :: "path \<Rightarrow> node \<Rightarrow> node" where
  "remove_at p soup = (if p = [] then soup else modify_at (butlast p) (drop_child (last p)) soup)"

text \<open>
  \<open>for el in els: el.decompose()\<close> for elements listed in document order. The tree that
  results does not depend on the order of the removals; the model removes the last
  element first, which leaves the paths of the elements still to be removed untouched.
\<close>

definition decompose_all :: "elref list \<Rightarrow> node \<Rightarrow> node" where
  "decompose_all els soup = foldr (\<lambda>el. remove_at (fst el)) els soup"

fun child_to_end :: "nat \<Rightarrow> node \<Rightarrow> node" where
  "child_to_end i (Text s) = Text s"
| "child_to_end i (Elem t a ks) =
     (if i < length ks then Elem t a (take i ks @ drop (Suc i) ks @ [ks ! i]) else Elem t a ks)"

text \<open>\<open>parent = el.parent; el.extract(); parent.append(el)\<close>.\<close>

definition move_to_end :: "path \<Rightarrow> node \<Rightarrow> node" where
  "move_to_end p soup = (if p = [] then soup else modify_at (butlast p) (child_to_end (last p)) soup)"

text \<open>\<open>soup.find_all(True, ...)\<close> with a condition on tag and attributes, in document order.\<close>

fun find_from :: "(string \<Rightarrow> (string \<times> string) list \<Rightarrow> bool) \<Rightarrow> path \<Rightarrow> node \<Rightarrow> elref list"
  and find_kids :: "(string \<Rightarrow> (string \<times> string) list \<Rightarrow> bool) \<Rightarrow> path \<Rightarrow> nat \<Rightarrow> node list \<Rightarrow> elref list" where
  "find_from P p (Text s) = []"
| "find_from P p (Elem t a ks) = (if P t a then [(p, Elem t a ks)] else []) @ find_kids P p 0 ks"
| "find_kids P p i [] = []"
| "find_kids P p i (k # ks) = find_from P (p @ [i]) k @ find_kids P p (Suc i) ks"

definition find_all :: "(string \<Rightarrow> (string \<times> string) list \<Rightarrow> bool) \<Rightarrow> node \<Rightarrow> elref list" where
  "find_all P soup = find_kids P [] 0 (children soup)"

section \<open>Synthesizer\<close>

definition STATIC_LABELS :: "string \<rightharpoonup> (string \<rightharpoonup> string)" where
  "STATIC_LABELS =
     [''sl'' \<mapsto> [''people'' \<mapsto> ''Ljudje:'', ''process'' \<mapsto> ''Proces:'',
                 ''technology'' \<mapsto> ''Tehnologija:'', ''data'' \<mapsto> ''Podatki:'',
                 ''output'' \<mapsto> ''Output:''],
      ''en'' \<mapsto> [''people'' \<mapsto> ''People:'', ''process'' \<mapsto> ''Process:'',
                 ''technology'' \<mapsto> ''Technology:'', ''data'' \<mapsto> ''Data:'',
                 ''output'' \<mapsto> ''Output:'']]"

text \<open>
  The list \<open>desired\<close>; both tables of \<open>STATIC_LABELS\<close> hold the five keys, so that no
  lookup fails.
\<close>

definition desired :: "(string \<rightharpoonup> string) \<Rightarrow> string list" where
  "desired labels =
     map (\<lambda>k. the (labels k)) [''people'', ''process'', ''technology'', ''data'', ''output'']"

text \<open>\<open>label_lang in ("sl", "en") and soup.html is not None\<close>, then \<open>soup.html["lang"] = label_lang\<close>.\<close>

definition set_lang :: "string option \<Rightarrow> node \<Rightarrow> node" where
  "set_lang label_lang soup =
     (case label_lang of
        None \<Rightarrow> soup
      | Some l \<Rightarrow>
          if l \<in> {''sl'', ''en''} then
            (case select_one [[Tag ''html'']] soup of
               None \<Rightarrow> soup
             | Some el \<Rightarrow> modify_at (fst el) (set_attr ''lang'' l) soup)
          else soup)"

text \<open>
  Writing through an element reference. \<open>write\<close> gives the new children of the element
  (\<open>set_rich_text\<close> in variant 9.1, \<open>el.string = value\<close> in variant 5).
\<close>

definition write_rich :: "string \<Rightarrow> node list" where
  "write_rich value = rich_children value"

definition write_string :: "string \<Rightarrow> node list" where
  "write_string value = [Text value]"

text \<open>\<open>set_text(selector, value)\<close>.\<close>

definition set_text :: "(string \<Rightarrow> node list) \<Rightarrow> selector \<Rightarrow> string \<Rightarrow> node \<Rightarrow> node" where
  "set_text write sel value soup =
     (case select_one sel soup of
        None \<Rightarrow> soup
      | Some el \<Rightarrow> modify_at (fst el) (set_children (write value)) soup)"

text \<open>\<open>set_sec(panel_sel, idx, value)\<close>: the paragraphs are selected anew at every call.\<close>

definition set_sec :: "(string \<Rightarrow> node list) \<Rightarrow> string \<Rightarrow> nat \<Rightarrow> string \<Rightarrow> node \<Rightarrow> node" where
  "set_sec write side idx value soup =
     (let ps = select (sel_section_p side) soup
      in if length ps > idx then modify_at (fst (ps ! idx)) (set_children (write value)) soup
         else soup)"

text \<open>
  The heading loop works on two lists of references taken before the loop. An element
  below an element that the loop has already rewritten is no longer part of the
  document, and writing to it leaves the document unchanged; the second component of
  the state holds the paths rewritten so far.
\<close>

fun is_proper_prefix :: "path \<Rightarrow> path \<Rightarrow> bool" where
  "is_proper_prefix [] q = (q \<noteq> [])"
| "is_proper_prefix (i # p) [] = False"
| "is_proper_prefix (i # p) (j # q) = (i = j \<and> is_proper_prefix p q)"

definition write_ref :: "(string \<Rightarrow> node list) \<Rightarrow> elref list \<Rightarrow> nat \<Rightarrow> string \<Rightarrow> node \<times> path list \<Rightarrow> node \<times> path list" where
  "write_ref write els idx text st =
     (if length els > idx then
        (let p = fst (els ! idx)
         in if list_ex (\<lambda>q. is_proper_prefix q p) (snd st) then st
            else (modify_at p (set_children (write text)) (fst st), p # snd st))
      else st)"

fun heading_loop :: "(string \<Rightarrow> node list) \<Rightarrow> elref list \<Rightarrow> elref list \<Rightarrow> nat \<Rightarrow> string list \<Rightarrow> node \<times> path list \<Rightarrow> node \<times> path list" where
  "heading_loop write left_h3s right_h3s idx [] st = st"
| "heading_loop write left_h3s right_h3s idx (text # rest) st =
     heading_loop write left_h3s right_h3s (Suc idx) rest
       (write_ref write right_h3s idx text (write_ref write left_h3s idx text st))"

definition set_headings :: "(string \<Rightarrow> node list) \<Rightarrow> string option \<Rightarrow> node \<Rightarrow> node" where
  "set_headings write label_lang soup =
     (case label_lang of
        None \<Rightarrow> soup
      | Some l \<Rightarrow>
          (case STATIC_LABELS l of
             None \<Rightarrow> soup
           | Some labels \<Rightarrow>
               fst (heading_loop write
                      (select (sel_section_h3 ''left'') soup)
                      (select (sel_section_h3 ''right'') soup)
                      0 (desired labels) (soup, []))))"

text \<open>The trimming of surplus sections (variant 9.1).\<close>

definition trim_panel :: "string \<Rightarrow> node \<Rightarrow> node" where
  "trim_panel side soup =
     (let sections = select (sel_section side) soup
      in if length sections > 5 then decompose_all (drop 5 sections) soup else soup)"

definition trim_user :: "node \<Rightarrow> node" where
  "trim_user soup =
     (let user_sections = select (sel_section ''user'') soup
      in if length user_sections > 1 then decompose_all (drop 1 user_sections) soup else soup)"

text \<open>The removal of footers (variant 9.1).\<close>

definition basic_selectors :: "selector list" where
  "basic_selectors =
     [[[Tag ''footer'']], [[AttrEq ''role'' ''contentinfo'']], [[Cls ''footer'']],
      [[Ident ''footer'']], [[Cls ''page-footer'']], [[Cls ''site-footer'']],
      [[Cls ''app-footer'']]]"

fun remove_selected :: "selector list \<Rightarrow> node \<Rightarrow> node" where
  "remove_selected [] soup = soup"
| "remove_selected (sel # sels) soup = remove_selected sels (decompose_all (select sel soup) soup)"

text \<open>\<open>"footer" in v.lower()\<close>.\<close>

definition has_footer :: "string \<Rightarrow> bool" where
  "has_footer v = contains ''footer'' (py_lower v)"

definition id_has_footer :: "string \<Rightarrow> (string \<times> string) list \<Rightarrow> bool" where
  "id_has_footer t a = (case map_of a ''id'' of None \<Rightarrow> False | Some v \<Rightarrow> has_footer v)"

text \<open>
  \<open>class_=_class_contains_footer\<close>: the library applies the function to every class of the
  element and then to the classes joined by a space.
\<close>

definition class_has_footer :: "string \<Rightarrow> (string \<times> string) list \<Rightarrow> bool" where
  "class_has_footer t a =
     (case map_of a ''class'' of
        None \<Rightarrow> False
      | Some v \<Rightarrow> list_ex has_footer (tokens v) \<or> has_footer (py_join '' '' (tokens v)))"

definition remove_footers :: "node \<Rightarrow> node" where
  "remove_footers soup =
     (let s1 = remove_selected basic_selectors soup;
          s2 = decompose_all (find_all id_has_footer s1) s1
      in decompose_all (find_all class_has_footer s2) s2)"

definition sel_user_panel :: selector where
  "sel_user_panel = [[Cls ''panel'', Cls ''user'']]"

definition relocate_user :: "node \<Rightarrow> node" where
  "relocate_user soup =
     (case select_one sel_user_panel soup of
        None \<Rightarrow> soup
      | Some user_panel \<Rightarrow> move_to_end (fst user_panel) soup)"

text \<open>
  The body of \<open>apply_fields_to_html\<close> in \<open>as_is_to_be_9_1.py\<close> on the parsed tree, for
  a field mapping in which every lookup succeeds.
\<close>

definition synthesize_v9 :: "node \<Rightarrow> (string \<Rightarrow> string) \<Rightarrow> string option \<Rightarrow> node" where
  "synthesize_v9 soup0 fields label_lang =
     (let soup = set_lang label_lang soup0;
          soup = trim_panel ''left'' soup;
          soup = trim_panel ''right'' soup;
          soup = trim_user soup;
          soup = set_text write_rich sel_h1 (fields ''title'') soup;
          soup = set_text write_rich (sel_tag ''left'') (fields ''left_label'') soup;
          soup = set_text write_rich (sel_tag ''right'') (fields ''right_label'') soup;
          soup = set_sec write_rich ''left'' 0 (fields ''left_people'') soup;
          soup = set_sec write_rich ''left'' 1 (fields ''left_process'') soup;
          soup = set_sec write_rich ''left'' 2 (fields ''left_technology'') soup;
          soup = set_sec write_rich ''left'' 3 (fields ''left_data'') soup;
          soup = set_sec write_rich ''left'' 4 (fields ''left_output'') soup;
          soup = set_sec write_rich ''right'' 0 (fields ''right_people'') soup;
          soup = set_sec write_rich ''right'' 1 (fields ''right_process'') soup;
          soup = set_sec write_rich ''right'' 2 (fields ''right_technology'') soup;
          soup = set_sec write_rich ''right'' 3 (fields ''right_data'') soup;
          soup = set_sec write_rich ''right'' 4 (fields ''right_output'') soup;
          soup = set_text write_rich (sel_section_p ''user'') (fields ''user_notes'') soup;
          soup = set_headings write_rich label_lang soup;
          soup = remove_footers soup
      in relocate_user soup)"


text \<open>
  \<open>apply_fields_to_html\<close> on the parsed tree: \<open>fields[k]\<close> raises \<open>KeyError\<close> for a missing
  key, and every key of \<open>FIELD_KEYS\<close> is looked up; nothing of the document is returned
  when one of them is missing.
\<close>

definition apply_fields_v9 :: "node \<Rightarrow> (string \<rightharpoonup> string) \<Rightarrow> string option \<Rightarrow> error + node" where
  "apply_fields_v9 soup fields label_lang =
     (if list_all (\<lambda>k. fields k \<noteq> None) FIELD_KEYS_v9
      then Inr (synthesize_v9 soup (\<lambda>k. the (fields k)) label_lang) else Inl KeyError)"


text \<open>
  Vocabulary for the removal of elements: \<open>hit P k\<close> holds when \<open>k\<close> is an element
  whose tag and attributes satisfy \<open>P\<close>; \<open>prune P n\<close> deletes every such element below
  \<open>n\<close>; \<open>kids_free P n\<close> holds when no such element is left below \<open>n\<close>.
\<close>

fun hit :: "(string \<Rightarrow> (string \<times> string) list \<Rightarrow> bool) \<Rightarrow> node \<Rightarrow> bool" where
  "hit P (Text s) = False"
| "hit P (Elem t a ks) = P t a"

fun prune :: "(string \<Rightarrow> (string \<times> string) list \<Rightarrow> bool) \<Rightarrow> node \<Rightarrow> node" where
  "prune P (Text s) = Text s"
| "prune P (Elem t a ks) = Elem t a (map (prune P) (filter (\<lambda>k. \<not> hit P k) ks))"

fun free_of :: "(string \<Rightarrow> (string \<times> string) list \<Rightarrow> bool) \<Rightarrow> node \<Rightarrow> bool" where
  "free_of P (Text s) = True"
| "free_of P (Elem t a ks) = (\<not> P t a \<and> list_all (free_of P) ks)"

definition kids_free :: "(string \<Rightarrow> (string \<times> string) list \<Rightarrow> bool) \<Rightarrow> node \<Rightarrow> bool" where
  "kids_free P n = list_all (free_of P) (children n)"

text \<open>
  A footer landmark: a \<open>footer\<close> element, an element with the role \<open>contentinfo\<close>, or one
  whose id or class contains \<open>footer\<close> in any letter case.
\<close>

definition footer_landmark :: "string \<Rightarrow> (string \<times> string) list \<Rightarrow> bool" where
  "footer_landmark t a =
     (t = ''footer'' \<or> map_of a ''role'' = Some ''contentinfo'' \<or> id_has_footer t a \<or> class_has_footer t a)"

text \<open>The element at a path is the last child of its parent.\<close>

definition is_last_child :: "node \<Rightarrow> path \<Rightarrow> bool" where
  "is_last_child soup p =
     (p \<noteq> [] \<and> (case get_at soup (butlast p) of
                    None \<Rightarrow> False
                  | Some n \<Rightarrow> Suc (last p) = length (children n)))"


text \<open>An example slide of variant 9.1 with surplus sections, footers and a leading notes panel.\<close>

definition example_section :: "string \<Rightarrow> string \<Rightarrow> node" where
  "example_section h p =
     Elem ''div'' [(''class'', ''section'')] [Elem ''h3'' [] [Text h], Elem ''p'' [] [Text p]]"

definition example_panel :: "string \<Rightarrow> string \<Rightarrow> node list \<Rightarrow> node" where
  "example_panel side lab secs =
     Elem ''div'' [(''class'', ''panel '' @ side)]
       (Elem ''div'' [(''class'', ''side-label'')] [Elem ''span'' [(''class'', ''tag'')] [Text lab]] # secs)"

definition example_slide :: node where
  "example_slide =
     Elem ''[document]'' []
       [Elem ''html'' []
          [Elem ''head'' [] [Elem ''title'' [] [Text ''T'']],
           Elem ''body'' [(''data-x'', ''1'')]
             [Elem ''h1'' [] [Text ''Title''],
              Elem ''div'' [(''class'', ''panel user'')]
                [example_section ''Notes'' ''n1'', example_section ''More'' ''n2''],
              example_panel ''left'' ''AS''
                [example_section ''A'' ''X1'', example_section ''B'' ''X2'',
                 example_section ''C'' ''X3'', example_section ''D'' ''X4'',
                 example_section ''E'' ''X5'', example_section ''F'' ''X6'',
                 example_section ''G'' ''X7''],
              example_panel ''right'' ''TO''
                [example_section ''A'' ''Y1'', example_section ''B'' ''Y2'',
                 example_section ''C'' ''Y3''],
              Elem ''footer'' [] [Text ''foot''],
              Elem ''div'' [(''id'', ''MyFooterX'')] [],
              Elem ''div'' [(''class'', ''a big-FOOTER'')] []]]]"

text \<open>
  Path-free views of the mutations, used to reason about them: \<open>upd_sel sel k f\<close> applies
  \<open>f\<close> to the \<open>k\<close>-th match of a selector, \<open>cut_sel sel m\<close> deletes the matches after
  the first \<open>m\<close>, \<open>move_in P\<close> moves the first element satisfying \<open>P\<close> to the end of its
  parent, \<open>set_nth\<close> writes into the \<open>idx\<close>-th match when there is one, and
  \<open>pf_headings\<close> is the heading loop on the current document. \<open>hl_inv\<close> is the invariant
  of the heading loop.
\<close>

fun upd_from :: "selector \<Rightarrow> nat \<Rightarrow> (node \<Rightarrow> node) \<Rightarrow> node \<Rightarrow> node"
  and upd_kids :: "selector \<Rightarrow> nat \<Rightarrow> (node \<Rightarrow> node) \<Rightarrow> node list \<Rightarrow> node list" where
  "upd_from cs k f (Text s) = Text s"
| "upd_from [] k f (Elem t a ks) = Elem t a ks"
| "upd_from [c] k f (Elem t a ks) =
     (if matches c t a then (if k = 0 then f (Elem t a ks) else Elem t a (upd_kids [c] (k - 1) f ks))
      else Elem t a (upd_kids [c] k f ks))"
| "upd_from (c # d # cs) k f (Elem t a ks) =
     Elem t a (upd_kids (if matches c t a then d # cs else c # d # cs) k f ks)"
| "upd_kids cs k f [] = []"
| "upd_kids cs k f (x # xs) =
     (if k < length (select_from cs [] x) then upd_from cs k f x # xs
      else x # upd_kids cs (k - length (select_from cs [] x)) f xs)"


fun cut_from :: "selector \<Rightarrow> nat \<Rightarrow> node \<Rightarrow> node list"
  and cut_kids :: "selector \<Rightarrow> nat \<Rightarrow> node list \<Rightarrow> node list" where
  "cut_from cs m (Text s) = [Text s]"
| "cut_from [] m (Elem t a ks) = [Elem t a ks]"
| "cut_from [c] m (Elem t a ks) =
     (if matches c t a then (if m = 0 then [] else [Elem t a (cut_kids [c] (m - 1) ks)])
      else [Elem t a (cut_kids [c] m ks)])"
| "cut_from (c # d # cs) m (Elem t a ks) =
     [Elem t a (cut_kids (if matches c t a then d # cs else c # d # cs) m ks)]"
| "cut_kids cs m [] = []"
| "cut_kids cs m (x # xs) = cut_from cs m x @ cut_kids cs (m - length (select_from cs [] x)) xs"






section \<open>The template convention\<close>

text \<open>
  The slides that the two programs are written for have the structure of \<open>FALLBACK_HTML\<close>:
  a title \<open>h1\<close>, a left and a right panel, each with a label (\<open>.side-label .tag\<close>)
  and sections (\<open>.section\<close>) of one heading \<open>h3\<close> and one paragraph \<open>p\<close>, and a
  \<open>footer\<close> with a page number (\<open>.pagenum\<close>) and a summary (\<open>strong\<close>); variant 9.1 adds
  a notes panel (\<open>.panel.user\<close>). A well-formed slide is such a document with any number
  of sections, any further attributes on its elements, and any further markup between and
  inside them, as long as that markup is \<^emph>\<open>plain\<close>: it contains no element that one of
  the queries of the programs could select, and no footer landmark.

  An element is \<^emph>\<open>loud\<close> when its tag or one of its classes is used by a query, or when
  it is a footer landmark; attributes are \<^emph>\<open>calm\<close> when they make no element loud, and
  \<^emph>\<open>mild\<close> when they may stand beside the class of a structural element.
\<close>

type_synonym attrs = "(string \<times> string) list"

definition reserved_tags :: "string list" where
  "reserved_tags = [''h1'', ''h3'', ''p'', ''html'', ''strong'', ''footer'']"

definition reserved_classes :: "string list" where
  "reserved_classes = [''panel'', ''side-label'', ''tag'', ''section'', ''pagenum'']"

definition mild :: "attrs \<Rightarrow> bool" where
  "mild a = (\<not> id_has_footer [] a \<and> map_of a ''role'' \<noteq> Some ''contentinfo'')"

definition calm :: "attrs \<Rightarrow> bool" where
  "calm a = (list_all (\<lambda>c. c \<notin> set (class_list a)) reserved_classes \<and> mild a \<and> \<not> class_has_footer [] a)"

definition loud :: "string \<Rightarrow> attrs \<Rightarrow> bool" where
  "loud t a = (t \<in> set reserved_tags \<or> \<not> calm a)"

definition plain :: "node \<Rightarrow> bool" where
  "plain n = free_of loud n"

text \<open>
  The parts of a slide. Every gap is a list of plain nodes; the attributes are those the
  element carries besides its structural class.
\<close>

record sect =
  sec_attrs :: attrs
  sec_pre :: "node list"
  h3_attrs :: attrs
  heading :: "node list"
  sec_mid :: "node list"
  p_attrs :: attrs
  para :: "node list"
  sec_post :: "node list"

record panel =
  panel_attrs :: attrs
  panel_pre :: "node list"
  label_attrs :: attrs
  label_pre :: "node list"
  tag_attrs :: attrs
  label_text :: "node list"
  label_post :: "node list"
  sections :: "(node list \<times> sect) list"
  panel_post :: "node list"

record notebox =
  notes_attrs :: attrs
  notes_sections :: "(node list \<times> sect) list"
  notes_post :: "node list"

record footer =
  footer_attrs :: attrs
  footer_pre :: "node list"
  pagenum_attrs :: attrs
  page_number :: "node list"
  footer_mid :: "node list"
  strong_attrs :: attrs
  summary :: "node list"
  footer_post :: "node list"

record slide =
  root_pre :: "node list"
  html_attrs :: attrs
  html_pre :: "node list"
  body_attrs :: attrs
  gap0 :: "node list"
  h1_attrs :: attrs
  title :: "node list"
  gap1 :: "node list"
  left_panel :: panel
  gap2 :: "node list"
  right_panel :: panel
  gap3 :: "node list"
  notes_panel :: "notebox option"
  gap4 :: "node list"
  page_footer :: "footer option"
  gap5 :: "node list"
  html_post :: "node list"
  root_post :: "node list"

text \<open>The document of a slide.\<close>

definition mk_heading :: "sect \<Rightarrow> node" where
  "mk_heading s = Elem ''h3'' (h3_attrs s) (heading s)"

definition mk_para :: "sect \<Rightarrow> node" where
  "mk_para s = Elem ''p'' (p_attrs s) (para s)"

definition mk_section :: "sect \<Rightarrow> node" where
  "mk_section s =
     Elem ''div'' ((''class'', ''section'') # sec_attrs s)
       (sec_pre s @ mk_heading s # sec_mid s @ mk_para s # sec_post s)"

definition flat_sections :: "(node list \<times> sect) list \<Rightarrow> node list" where
  "flat_sections secs = concat (map (\<lambda>gs. fst gs @ [mk_section (snd gs)]) secs)"




definition mk_notes :: "notebox \<Rightarrow> node" where
  "mk_notes n =
     Elem ''div'' ((''class'', ''panel user'') # notes_attrs n)
       (flat_sections (notes_sections n) @ notes_post n)"









text \<open>Well-formed slides.\<close>

definition section_ok :: "sect \<Rightarrow> bool" where
  "section_ok s =
     (mild (sec_attrs s) \<and> list_all plain (sec_pre s) \<and> calm (h3_attrs s) \<and> list_all plain (heading s)
      \<and> list_all plain (sec_mid s) \<and> calm (p_attrs s) \<and> list_all plain (para s)
      \<and> list_all plain (sec_post s))"

definition sections_ok :: "(node list \<times> sect) list \<Rightarrow> bool" where
  "sections_ok secs = list_all (\<lambda>gs. list_all plain (fst gs) \<and> section_ok (snd gs)) secs"

definition panel_ok :: "panel \<Rightarrow> bool" where
  "panel_ok pn =
     (mild (panel_attrs pn) \<and> list_all plain (panel_pre pn) \<and> mild (label_attrs pn)
      \<and> list_all plain (label_pre pn) \<and> mild (tag_attrs pn) \<and> list_all plain (label_text pn)
      \<and> list_all plain (label_post pn) \<and> sections_ok (sections pn) \<and> list_all plain (panel_post pn))"

definition notes_ok :: "notebox \<Rightarrow> bool" where
  "notes_ok n =
     (mild (notes_attrs n) \<and> sections_ok (notes_sections n) \<and> list_all plain (notes_post n))"

definition footer_ok :: "footer \<Rightarrow> bool" where
  "footer_ok f =
     (calm (footer_attrs f) \<and> list_all plain (footer_pre f) \<and> mild (pagenum_attrs f)
      \<and> list_all plain (page_number f) \<and> list_all plain (footer_mid f) \<and> calm (strong_attrs f)
      \<and> list_all plain (summary f) \<and> list_all plain (footer_post f))"

definition slide_ok :: "slide \<Rightarrow> bool" where
  "slide_ok c =
     (list_all plain (root_pre c) \<and> calm (html_attrs c) \<and> list_all plain (html_pre c)
      \<and> calm (body_attrs c) \<and> list_all plain (gap0 c) \<and> calm (h1_attrs c) \<and> list_all plain (title c)
      \<and> list_all plain (gap1 c) \<and> panel_ok (left_panel c) \<and> list_all plain (gap2 c)
      \<and> panel_ok (right_panel c) \<and> list_all plain (gap3 c)
      \<and> (case notes_panel c of None \<Rightarrow> True | Some n \<Rightarrow> notes_ok n) \<and> list_all plain (gap4 c)
      \<and> (case page_footer c of None \<Rightarrow> True | Some f \<Rightarrow> footer_ok f) \<and> list_all plain (gap5 c)
      \<and> list_all plain (html_post c) \<and> list_all plain (root_post c))"

text \<open>
  The nodes a query selects, without their paths, and the compound selectors all of whose
  matches are loud.
\<close>

definition nodes_from :: "selector \<Rightarrow> node \<Rightarrow> node list" where
  "nodes_from cs x = map snd (select_from cs [] x)"

definition nodes_kids :: "selector \<Rightarrow> node list \<Rightarrow> node list" where
  "nodes_kids cs xs = map snd (select_kids cs [] 0 xs)"



text \<open>
  The kinds of element of a slide: a tag with calm attributes, or a tag with a structural
  class and mild attributes. \<open>misses P k\<close> holds when no element of kind \<open>k\<close> satisfies
  \<open>P\<close>, and \<open>shy P\<close> when only loud elements satisfy \<open>P\<close>.
\<close>

type_synonym kind = "string \<times> string option"

definition misses :: "(string \<Rightarrow> attrs \<Rightarrow> bool) \<Rightarrow> kind \<Rightarrow> bool" where
  "misses P k =
     (case snd k of
        None \<Rightarrow> (\<forall>a. calm a \<longrightarrow> \<not> P (fst k) a)
      | Some v \<Rightarrow> (\<forall>xa. mild xa \<longrightarrow> \<not> P (fst k) ((''class'', v) # xa)))"

definition shy :: "(string \<Rightarrow> attrs \<Rightarrow> bool) \<Rightarrow> bool" where
  "shy P = (\<forall>t a. P t a \<longrightarrow> loud t a)"






section \<open>The synthesizer on the parts of a slide\<close>

text \<open>
  What the synthesizer does to a well-formed slide, stated on its parts:
  \<open>set_para\<close> and \<open>set_heading\<close> write one paragraph or heading, \<open>write_paras\<close> and
  \<open>write_headings\<close> write the leading ones from a list of values, \<open>seq_para\<close> and
  \<open>seq_heading\<close> do so one position after the other, \<open>trim_sections\<close> and
  \<open>trim_notes\<close> delete the surplus sections (the markup between them stays),
  \<open>lang_attrs\<close> sets the language of the root element, and \<open>vocabulary\<close> is the list
  of headings of the requested language.
\<close>

definition set_para :: "nat \<Rightarrow> node list \<Rightarrow> (node list \<times> sect) list \<Rightarrow> (node list \<times> sect) list" where
  "set_para k new secs =
     (if k < length secs then secs[k := (fst (secs ! k), (snd (secs ! k))\<lparr>para := new\<rparr>)] else secs)"

definition set_heading :: "nat \<Rightarrow> node list \<Rightarrow> (node list \<times> sect) list \<Rightarrow> (node list \<times> sect) list" where
  "set_heading k new secs =
     (if k < length secs then secs[k := (fst (secs ! k), (snd (secs ! k))\<lparr>heading := new\<rparr>)] else secs)"

fun write_paras :: "(string \<Rightarrow> node list) \<Rightarrow> string list \<Rightarrow> (node list \<times> sect) list \<Rightarrow> (node list \<times> sect) list" where
  "write_paras W [] secs = secs"
| "write_paras W (v # vs) [] = []"
| "write_paras W (v # vs) (gs # secs) = (fst gs, (snd gs)\<lparr>para := W v\<rparr>) # write_paras W vs secs"




















section \<open>Properties\<close>

subsection \<open>Translation adapter\<close>

text \<open>
  C10: for every pair of language codes and whatever the injected translator is,
  \<open>translate_text\<close> on the empty string returns the empty string and makes no call
  to the translator.
\<close>

theorem translate_text_empty:
  "translate_text GT [] src dest = ([], [])"
  by (simp add: translate_text_def)

lemma split_nl_nonempty: "split_nl s \<noteq> []"
  by (induction s) (auto split: list.splits)

lemma join_split_nl: "py_join [LF] (split_nl s) = s"
proof (induction s)
  case Nil show ?case by simp
next
  case (Cons c cs)
  obtain p ps where sp: "split_nl cs = p # ps" using split_nl_nonempty[of cs] by (cases "split_nl cs") auto
  show ?case using Cons sp by (cases ps) auto
qed

lemma strings_rich_nodes: "concat (map all_strings (rich_nodes ps)) = ps"
  by (induction ps rule: rich_nodes.induct) auto

lemma CR_notin_replace_cr: "CR \<notin> set (replace_cr s)"
  by (auto simp: replace_cr_def CR_def LF_def)

lemma replace_cr_id: "CR \<notin> set s \<Longrightarrow> replace_cr s = s"
  by (induction s) (auto simp: replace_cr_def)

lemma replace_crlf_id: "CR \<notin> set s \<Longrightarrow> replace_crlf s = s"
  by (induction s rule: replace_crlf.induct) auto

lemma decode_encode: "text_with_newlines (Elem t a (rich_children v)) = replace_cr (replace_crlf v)"
  by (simp add: text_with_newlines_def get_text_nl_def rich_children_def strings_rich_nodes
      join_split_nl replace_cr_id replace_crlf_id CR_notin_replace_cr)

lemma fill_defaults_apply:
  "fill_defaults d ks f k =
     (if k \<in> set ks \<and> falsy (f k) then Some (dict_get d k ''TBD'') else f k)"
  by (induction ks arbitrary: f) (auto simp: falsy_def)

lemma dom_fill_defaults: "dom (fill_defaults d ks f) = dom f \<union> set ks"
  by (auto simp: fill_defaults_apply dom_def falsy_def split: if_splits option.splits)

lemma dom_raw_v9: "dom (raw_fields_v9 soup) = set FIELD_KEYS_v9"
  unfolding raw_fields_v9_def FIELD_KEYS_v9_def Let_def by (simp only: dom_fun_upd dom_empty option.distinct if_False list.set insert_commute)

lemma dom_raw_v5: "dom (raw_fields_v5 soup) = set FIELD_KEYS_v5"
  unfolding raw_fields_v5_def FIELD_KEYS_v5_def Let_def by (simp only: dom_fun_upd dom_empty option.distinct if_False list.set insert_commute)


lemma dom_DEFAULTS_v9: "dom DEFAULTS_v9 = set FIELD_KEYS_v9"
  unfolding DEFAULTS_v9_def by (simp add: dom_map_of_conv_image_fst image_image FIELD_KEYS_v9_def insert_commute)

lemma dom_DEFAULTS_v5: "dom DEFAULTS_v5 = set FIELD_KEYS_v5"
  unfolding DEFAULTS_v5_def by (simp add: dom_map_of_conv_image_fst image_image FIELD_KEYS_v5_def insert_commute)

lemma fill_all_default:
  assumes "dom f = set ks" and "dom d = set ks" and "\<And>k. f k = None \<or> f k = Some []"
  shows "fill_defaults d ks f = d"
proof
  fix k
  show "fill_defaults d ks f k = d k"
  proof (cases "k \<in> set ks")
    case True
    then obtain v where "d k = Some v" using assms(2) by auto
    moreover have "falsy (f k)" using assms(3)[of k] by (auto simp: falsy_def)
    ultimately show ?thesis using True by (simp add: fill_defaults_apply dict_get_def)
  next
    case False
    then have "f k = None" "d k = None" using assms(1,2) by auto
    then show ?thesis using False by (simp add: fill_defaults_apply)
  qed
qed

lemma defaults_v9_nonempty:
  "k \<in> set FIELD_KEYS_v9 \<Longrightarrow> k \<noteq> ''user_notes'' \<Longrightarrow> dict_get DEFAULTS_v9 k ''TBD'' \<noteq> []"
  by (auto simp: FIELD_KEYS_v9_def DEFAULTS_v9_def dict_get_def)

lemma defaults_v5_nonempty:
  "k \<in> set FIELD_KEYS_v5 \<Longrightarrow> dict_get DEFAULTS_v5 k ''TBD'' \<noteq> []"
  by (auto simp: FIELD_KEYS_v5_def DEFAULTS_v5_def dict_get_def)

lemma dict_get_dom: "k \<in> dom d \<Longrightarrow> Some (dict_get d k x) = d k"
  by (auto simp: dict_get_def)


lemma rich_nodes_text_or_br: "list_all text_or_br (rich_nodes ps)"
  by (induction ps rule: rich_nodes.induct) auto

lemma raw_v9_no_slot:
  "no_slot_v9 soup \<Longrightarrow> raw_fields_v9 soup k = None \<or> raw_fields_v9 soup k = Some []"
  by (simp add: no_slot_v9_def raw_fields_v9_def sec_def get_text_sel_def select_one_def)

lemma raw_v5_no_slot:
  "no_slot_v5 soup \<Longrightarrow> raw_fields_v5 soup k = None \<or> raw_fields_v5 soup k = Some []"
  by (simp add: no_slot_v5_def raw_fields_v5_def sec_def get_text_sel_def select_one_def)

subsection \<open>Rich-text codec\<close>

text \<open>
  C3 (as amended): writing a value into an element with \<open>set_rich_text\<close> and reading the
  element back with \<open>_text_with_newlines\<close> yields the value with its carriage returns
  normalised to line feeds, hence the value itself when it holds no carriage return;
  the element's children are text nodes and empty \<open>br\<close> elements only, and the text
  nodes are the segments of the value between line feeds, so that no character of the
  value becomes markup.
\<close>

theorem rich_text_roundtrip:
  "text_with_newlines (Elem t a (rich_children v)) = normalize_newlines v
   \<and> (CR \<notin> set v \<longrightarrow> text_with_newlines (Elem t a (rich_children v)) = v)
   \<and> list_all text_or_br (rich_children v)
   \<and> concat (map all_strings (rich_children v)) = split_nl (normalize_newlines v)"
proof (intro conjI impI)
  show "text_with_newlines (Elem t a (rich_children v)) = normalize_newlines v"
    by (simp add: decode_encode normalize_newlines_def)
  show "text_with_newlines (Elem t a (rich_children v)) = v" if "CR \<notin> set v"
    using that by (simp add: decode_encode replace_cr_id replace_crlf_id)
  show "list_all text_or_br (rich_children v)"
    by (simp add: rich_children_def rich_nodes_text_or_br)
  show "concat (map all_strings (rich_children v)) = split_nl (normalize_newlines v)"
    by (simp add: rich_children_def strings_rich_nodes normalize_newlines_def)
qed

theorem rich_text_roundtrip_witness:
  "CR \<notin> set (''a<b>&'' @ [CHR 0x22, LF] @ ''c'')
   \<and> text_with_newlines (Elem ''p'' [] (rich_children (''a<b>&'' @ [CHR 0x22, LF] @ ''c'')))
       = ''a<b>&'' @ [CHR 0x22, LF] @ ''c''
   \<and> rich_children (''a<b>&'' @ [CHR 0x22, LF] @ ''c'')
       = [Text (''a<b>&'' @ [CHR 0x22]), Elem ''br'' [] [], Text ''c'']"
proof -
  have h: "CR \<notin> set (''a<b>&'' @ [CHR 0x22, LF] @ ''c'')"
    by (simp add: CR_def LF_def)
  have r: "rich_children (''a<b>&'' @ [CHR 0x22, LF] @ ''c'')
       = [Text (''a<b>&'' @ [CHR 0x22]), Elem ''br'' [] [], Text ''c'']"
    by code_simp
  from rich_text_roundtrip [of "''p''" "[]" "''a<b>&'' @ [CHR 0x22, LF] @ ''c''"] h
  have "text_with_newlines (Elem ''p'' [] (rich_children (''a<b>&'' @ [CHR 0x22, LF] @ ''c'')))
       = ''a<b>&'' @ [CHR 0x22, LF] @ ''c''"
    by blast
  with h r show ?thesis by blast
qed

text \<open>A value with a lone carriage return does not come back as it was.\<close>

theorem rich_text_cr_counterexample:
  "text_with_newlines (Elem ''p'' [] (rich_children (''a'' @ [CR] @ ''b''))) \<noteq> ''a'' @ [CR] @ ''b''"
  by (simp add: decode_encode CR_def LF_def replace_cr_def)

subsection \<open>Extractor\<close>

text \<open>What the extractor reads for a field is the text of the element in its slot.\<close>

lemma slot_text_first:
  "get_text_sel txt soup sel = (case slot_element (sel, 0) soup of None \<Rightarrow> [] | Some el \<Rightarrow> txt el)"
  by (cases "select sel soup") (simp_all add: get_text_sel_def select_one_def slot_element_def)

lemma slot_text_nth:
  "sec txt idx (select sel soup) = (case slot_element (sel, idx) soup of None \<Rightarrow> [] | Some el \<Rightarrow> txt el)"
  by (simp add: sec_def slot_element_def)

lemma slot_text_user:
  "(case select_one sel soup of None \<Rightarrow> [] | Some el \<Rightarrow> txt (snd el))
     = (case slot_element (sel, 0) soup of None \<Rightarrow> [] | Some el \<Rightarrow> txt el)"
  by (cases "select sel soup") (simp_all add: select_one_def slot_element_def)

lemma raw_v9_slot:
  "map_of slots_v9 k = Some sl \<Longrightarrow>
     raw_fields_v9 soup k = Some (case slot_element sl soup of None \<Rightarrow> [] | Some el \<Rightarrow> text_with_newlines el)"
  unfolding slots_v9_def raw_fields_v9_def Let_def slot_text_first slot_text_nth slot_text_user
  by (auto split: if_splits)

lemma raw_v5_slot:
  "map_of slots_v5 k = Some sl \<Longrightarrow>
     raw_fields_v5 soup k = Some (case slot_element sl soup of None \<Rightarrow> [] | Some el \<Rightarrow> get_text_strip el)"
  unfolding slots_v5_def raw_fields_v5_def Let_def slot_text_first slot_text_nth
  by (auto split: if_splits)

lemma slot_keys_v9: "map fst slots_v9 = FIELD_KEYS_v9"
  by (simp add: slots_v9_def FIELD_KEYS_v9_def)

lemma slot_keys_v5: "map fst slots_v5 = FIELD_KEYS_v5"
  by (simp add: slots_v5_def FIELD_KEYS_v5_def)

lemma slot_key_mem: "map_of slots k = Some sl \<Longrightarrow> k \<in> set (map fst slots)"
  by (auto dest: map_of_SomeD intro: rev_image_eqI)

text \<open>
  C4 (as amended): every schema field has a slot, and in either variant a field whose
  slot is absent from the document, or whose element extracts to the empty string, is
  mapped to its schema default; the extracted value is not empty for every field of
  variant 5 and for every field of variant 9.1 but \<open>user_notes\<close>, whose default is the
  empty string.
\<close>

theorem default_substitution:
  "map fst slots_v9 = FIELD_KEYS_v9 \<and> map fst slots_v5 = FIELD_KEYS_v5
   \<and> (map_of slots_v9 k = Some sl \<longrightarrow> slot_blank text_with_newlines sl soup \<longrightarrow>
        parse_soup_v9 soup k = DEFAULTS_v9 k)
   \<and> (k \<in> set FIELD_KEYS_v9 \<longrightarrow> k \<noteq> ''user_notes'' \<longrightarrow>
        (\<exists>v. parse_soup_v9 soup k = Some v \<and> v \<noteq> []))
   \<and> (map_of slots_v5 k = Some sl' \<longrightarrow> slot_blank get_text_strip sl' soup \<longrightarrow>
        parse_soup_v5 soup k = DEFAULTS_v5 k)
   \<and> (k \<in> set FIELD_KEYS_v5 \<longrightarrow>
        (\<exists>v. parse_soup_v5 soup k = Some v \<and> v \<noteq> []))"
proof (intro conjI impI)
  show "map fst slots_v9 = FIELD_KEYS_v9" by (rule slot_keys_v9)
  show "map fst slots_v5 = FIELD_KEYS_v5" by (rule slot_keys_v5)
next
  assume sl: "map_of slots_v9 k = Some sl" and b: "slot_blank text_with_newlines sl soup"
  have k: "k \<in> set FIELD_KEYS_v9" using slot_key_mem[OF sl] by (simp add: slot_keys_v9)
  have "falsy (raw_fields_v9 soup k)"
    using b by (simp add: raw_v9_slot[OF sl] falsy_def slot_blank_def split: option.splits)
  then show "parse_soup_v9 soup k = DEFAULTS_v9 k" using k
    by (simp add: parse_soup_v9_def fill_defaults_apply dict_get_dom dom_DEFAULTS_v9)
next
  assume k: "k \<in> set FIELD_KEYS_v9" "k \<noteq> ''user_notes''"
  show "\<exists>v. parse_soup_v9 soup k = Some v \<and> v \<noteq> []"
    using k defaults_v9_nonempty[OF k]
    by (auto simp: parse_soup_v9_def fill_defaults_apply falsy_def split: option.splits)
next
  assume sl: "map_of slots_v5 k = Some sl'" and b: "slot_blank get_text_strip sl' soup"
  have k: "k \<in> set FIELD_KEYS_v5" using slot_key_mem[OF sl] by (simp add: slot_keys_v5)
  have "falsy (raw_fields_v5 soup k)"
    using b by (simp add: raw_v5_slot[OF sl] falsy_def slot_blank_def split: option.splits)
  then show "parse_soup_v5 soup k = DEFAULTS_v5 k" using k
    by (simp add: parse_soup_v5_def fill_defaults_apply dict_get_dom dom_DEFAULTS_v5)
next
  assume k: "k \<in> set FIELD_KEYS_v5"
  show "\<exists>v. parse_soup_v5 soup k = Some v \<and> v \<noteq> []"
    using k defaults_v5_nonempty[OF k]
    by (auto simp: parse_soup_v5_def fill_defaults_apply falsy_def split: option.splits)
qed

text \<open>
  In \<open>sparse_slide\<close> the fourth section of the right panel is absent: \<open>right_data\<close> is
  read as its default in both variants.
\<close>

theorem default_substitution_witness:
  "map_of slots_v9 ''right_data'' = Some (sel_section_p ''right'', 3)
   \<and> map_of slots_v5 ''right_data'' = Some (sel_section_p ''right'', 3)
   \<and> slot_element (sel_section_p ''right'', 3) sparse_slide = None
   \<and> parse_soup_v9 sparse_slide ''right_data'' = Some ''TBD''
   \<and> parse_soup_v5 sparse_slide ''right_data'' = Some ''TBD''
   \<and> map_of slots_v9 ''title'' = Some (sel_h1, 0)
   \<and> map_of slots_v5 ''title'' = Some (sel_h1, 0)
   \<and> slot_element (sel_h1, 0) sparse_slide = Some (Elem ''h1'' [] [])
   \<and> text_with_newlines (Elem ''h1'' [] []) = [] \<and> get_text_strip (Elem ''h1'' [] []) = []
   \<and> parse_soup_v9 sparse_slide ''title'' = Some ''TBD''
   \<and> parse_soup_v5 sparse_slide ''title'' = Some ''TBD''"
proof -
  have h: "map_of slots_v9 ''right_data'' = Some (sel_section_p ''right'', 3)"
    "map_of slots_v5 ''right_data'' = Some (sel_section_p ''right'', 3)"
    "slot_element (sel_section_p ''right'', 3) sparse_slide = None"
    "slot_blank text_with_newlines (sel_section_p ''right'', 3) sparse_slide"
    "slot_blank get_text_strip (sel_section_p ''right'', 3) sparse_slide"
    "DEFAULTS_v9 ''right_data'' = Some ''TBD''" "DEFAULTS_v5 ''right_data'' = Some ''TBD''"
    by code_simp+
  have t: "map_of slots_v9 ''title'' = Some (sel_h1, 0)"
    "map_of slots_v5 ''title'' = Some (sel_h1, 0)"
    "slot_element (sel_h1, 0) sparse_slide = Some (Elem ''h1'' [] [])"
    "text_with_newlines (Elem ''h1'' [] []) = []" "get_text_strip (Elem ''h1'' [] []) = []"
    "slot_blank text_with_newlines (sel_h1, 0) sparse_slide"
    "slot_blank get_text_strip (sel_h1, 0) sparse_slide"
    "DEFAULTS_v9 ''title'' = Some ''TBD''" "DEFAULTS_v5 ''title'' = Some ''TBD''"
    by code_simp+
  from default_substitution [of "''right_data''" "(sel_section_p ''right'', 3)" sparse_slide
      "(sel_section_p ''right'', 3)"] h
  have a: "parse_soup_v9 sparse_slide ''right_data'' = Some ''TBD''"
    "parse_soup_v5 sparse_slide ''right_data'' = Some ''TBD''" by simp_all
  from default_substitution [of "''title''" "(sel_h1, 0)" sparse_slide "(sel_h1, 0)"] t
  have b: "parse_soup_v9 sparse_slide ''title'' = Some ''TBD''"
    "parse_soup_v5 sparse_slide ''title'' = Some ''TBD''" by simp_all
  from h(1-3) t(1-5) a b show ?thesis by simp
qed

text \<open>
  In variant 9.1 the notes field of a slide without a notes panel is the empty string:
  its slot is absent, and its schema default is the empty string.
\<close>

theorem user_notes_default_counterexample:
  "slot_element (sel_section_p ''user'', 0) sparse_slide = None
   \<and> parse_soup_v9 sparse_slide ''user_notes'' = Some []"
  by code_simp

text \<open>
  C6 (as amended): \<open>parse_html_fields\<close> of either variant raises what the parser raises
  for the input string and nothing else: when the parser returns a tree, the result is a
  dictionary whose keys are exactly the field names (every index is guarded in the
  source), and it is the schema's defaults when no query of the extractor matches.
\<close>

theorem extract_total:
  "(BeautifulSoup html = Inl e \<longrightarrow>
      parse_html_fields_v9 BeautifulSoup html = Inl e \<and> parse_html_fields_v5 BeautifulSoup html = Inl e)
   \<and> (BeautifulSoup html = Inr soup \<longrightarrow>
      (\<exists>fields. parse_html_fields_v9 BeautifulSoup html = Inr fields \<and> dom fields = set FIELD_KEYS_v9
          \<and> (no_slot_v9 soup \<longrightarrow> fields = DEFAULTS_v9))
      \<and> (\<exists>fields. parse_html_fields_v5 BeautifulSoup html = Inr fields \<and> dom fields = set FIELD_KEYS_v5
          \<and> (no_slot_v5 soup \<longrightarrow> fields = DEFAULTS_v5)))"
  by (simp add: parse_html_fields_v9_def parse_html_fields_v5_def parse_soup_v9_def parse_soup_v5_def
      dom_fill_defaults dom_raw_v9 dom_raw_v5 fill_all_default dom_DEFAULTS_v9 dom_DEFAULTS_v5
      raw_v9_no_slot raw_v5_no_slot)

text \<open>A page that is no slide is accepted by the parser and read as the schema's defaults.\<close>

theorem extract_total_witness:
  "rejecting_parser ''<div>hello<b>!</b></div>'' = Inr plain_page
   \<and> no_slot_v9 plain_page \<and> no_slot_v5 plain_page
   \<and> parse_html_fields_v9 rejecting_parser ''<div>hello<b>!</b></div>'' = Inr DEFAULTS_v9
   \<and> parse_html_fields_v5 rejecting_parser ''<div>hello<b>!</b></div>'' = Inr DEFAULTS_v5"
proof -
  have h: "rejecting_parser ''<div>hello<b>!</b></div>'' = Inr plain_page"
    "no_slot_v9 plain_page" "no_slot_v5 plain_page"
    by code_simp+
  from extract_total [of rejecting_parser "''<div>hello<b>!</b></div>''" ParserRejectedMarkup plain_page] h
  show ?thesis by auto
qed

text \<open>A string that the parser rejects: the extractor raises.\<close>

theorem parser_error_counterexample:
  "parse_html_fields_v9 rejecting_parser ''<![0>'' = Inl ParserRejectedMarkup
   \<and> parse_html_fields_v5 rejecting_parser ''<![0>'' = Inl ParserRejectedMarkup"
  by (simp add: parse_html_fields_v9_def parse_html_fields_v5_def rejecting_parser_def)

subsection \<open>Searching and removing elements\<close>

lemma find_prefix:
  "find_from P (pre @ p) n = map (\<lambda>r. (pre @ fst r, snd r)) (find_from P p n)"
  "find_kids P (pre @ p) i ks = map (\<lambda>r. (pre @ fst r, snd r)) (find_kids P p i ks)"
  by (induction P p n and P p i ks arbitrary: pre and pre rule: find_from_find_kids.induct) auto

lemma find_free:
  "(find_from P p n = []) = free_of P n"
  "(find_kids P p i ks = []) = list_all (free_of P) ks"
  by (induction P p n and P p i ks rule: find_from_find_kids.induct) auto

lemma find_all_empty: "(find_all P soup = []) = kids_free P soup"
  by (simp add: find_all_def kids_free_def find_free)

lemma select_is_find:
  "select_from [c] p n = find_from (matches c) p n"
  "select_kids [c] p i ks = find_kids (matches c) p i ks"
  by (induction "matches c" p n and "matches c" p i ks rule: find_from_find_kids.induct) auto

lemma select_single: "select [c] soup = find_all (matches c) soup"
  by (simp add: select_def find_all_def select_is_find)

lemma free_of_prune: "free_of Q n \<Longrightarrow> free_of Q (prune P n)"
  by (induction n) (auto simp: list_all_iff)

lemma kids_free_prune_keep: "kids_free Q n \<Longrightarrow> kids_free Q (prune P n)"
  by (cases n) (auto simp: kids_free_def list_all_iff free_of_prune)


lemma free_of_alt: "free_of P m = (\<not> hit P m \<and> kids_free P m)"
  by (cases m) (auto simp: kids_free_def)

lemma hit_prune: "hit P (prune Q k) = hit P k"
  by (cases k) auto

lemma kids_free_prune: "kids_free P (prune P n)"
proof (induction n)
  case (Text s) show ?case by (simp add: kids_free_def)
next
  case (Elem t a ks)
  have "free_of P (prune P k)" if "k \<in> set ks" "\<not> hit P k" for k
    using that Elem[of k] by (simp add: free_of_alt hit_prune)
  then show ?case by (auto simp: kids_free_def list_all_iff)
qed

lemma find_kids_nonempty_path: "r \<in> set (find_kids P [] i ks) \<Longrightarrow> fst r \<noteq> []"
  and find_from_nonempty_path: "r \<in> set (find_from P [j] n) \<Longrightarrow> fst r \<noteq> []"
proof -
  have a: "r \<in> set (find_from P (p @ [j]) n) \<Longrightarrow> fst r \<noteq> []" for p j n
    using find_prefix(1)[of P "p @ [j]" "[]" n] by auto
  have "r \<in> set (find_kids P p i ks) \<Longrightarrow> fst r \<noteq> []" for p
    by (induction ks arbitrary: i) (auto dest: a)
  then show "r \<in> set (find_kids P [] i ks) \<Longrightarrow> fst r \<noteq> []" .
  show "r \<in> set (find_from P [j] n) \<Longrightarrow> fst r \<noteq> []" using a[of "[]" j n] by simp
qed

lemma remove_at_Cons:
  "q \<noteq> [] \<Longrightarrow> i < length ks \<Longrightarrow>
   remove_at (i # q) (Elem t a ks) = Elem t a (ks[i := remove_at q (ks ! i)])"
  by (simp add: remove_at_def)

lemma remove_at_single: "remove_at [i] (Elem t a ks) = Elem t a (take i ks @ drop (Suc i) ks)"
  by (simp add: remove_at_def)

lemma foldr_remove_under:
  assumes "i < length ks" and "\<forall>r \<in> set rs. fst r \<noteq> []"
  shows "foldr (\<lambda>el. remove_at (fst el)) (map (\<lambda>r. (i # fst r, snd r)) rs) (Elem t a ks)
         = Elem t a (ks[i := foldr (\<lambda>el. remove_at (fst el)) rs (ks ! i)])"
  using assms
proof (induction rs)
  case Nil then show ?case by simp
next
  case (Cons r rs)
  then show ?case by (simp add: remove_at_Cons)
qed

lemma find_from_shift:
  "find_from P [j] k = map (\<lambda>r. (j # fst r, snd r)) (find_from P [] k)"
  using find_prefix(1)[of P "[j]" "[]" k] by simp

lemma find_kids_shift:
  "find_kids P [j] i ks = map (\<lambda>r. (j # fst r, snd r)) (find_kids P [] i ks)"
  using find_prefix(2)[of P "[j]" "[]" i ks] by simp

lemma decompose_kids_aux:
  assumes IH: "\<And>k. k \<in> set cs \<Longrightarrow>
      foldr (\<lambda>el. remove_at (fst el)) (find_kids P [] 0 (children k)) k = prune P k"
  shows "foldr (\<lambda>el. remove_at (fst el)) (find_kids P [] (length front) cs) (Elem t a (front @ cs))
   = Elem t a (front @ map (prune P) (filter (\<lambda>k. \<not> hit P k) cs))"
  using IH
proof (induction cs arbitrary: front)
  case Nil show ?case by simp
next
  case (Cons k cs)
  let ?rm = "\<lambda>el. remove_at (fst el)"
  let ?rest = "map (prune P) (filter (\<lambda>k. \<not> hit P k) cs)"
  have tail: "foldr ?rm (find_kids P [] (Suc (length front)) cs) (Elem t a (front @ k # cs))
        = Elem t a (front @ k # ?rest)"
    using Cons.IH[of "front @ [k]"] Cons.prems by simp
  show ?case
  proof (cases k)
    case (Text s)
    then show ?thesis using tail by simp
  next
    case (Elem t' a' ks')
    have inner: "foldr ?rm (find_kids P [length front] 0 ks') (Elem t a (front @ k # ?rest))
        = Elem t a (front @ prune P k # ?rest)"
    proof -
      have "foldr ?rm (find_kids P [length front] 0 ks') (Elem t a (front @ k # ?rest))
          = Elem t a ((front @ k # ?rest)[length front := foldr ?rm (find_kids P [] 0 ks') ((front @ k # ?rest) ! length front)])"
        unfolding find_kids_shift[of P "length front"]
        by (rule foldr_remove_under) (auto dest: find_kids_nonempty_path)
      also have "\<dots> = Elem t a (front @ prune P k # ?rest)"
        using Cons.prems[of k] Elem by simp
      finally show ?thesis .
    qed
    show ?thesis
    proof (cases "P t' a'")
      case True
      then show ?thesis using Elem tail inner by (simp add: remove_at_single)
    next
      case False
      then show ?thesis using Elem tail inner by simp
    qed
  qed
qed

lemma decompose_node:
  "foldr (\<lambda>el. remove_at (fst el)) (find_kids P [] 0 (children n)) n = prune P n"
proof (induction n)
  case (Text s) show ?case by simp
next
  case (Elem t a ks)
  show ?case using decompose_kids_aux[of ks P "[]" t a] Elem by simp
qed

lemma decompose_find_all: "decompose_all (find_all P soup) soup = prune P soup"
  by (simp add: decompose_all_def find_all_def decompose_node)

lemma decompose_select_single: "decompose_all (select [c] soup) soup = prune (matches c) soup"
  by (simp add: select_single decompose_find_all)


lemma free_of_disj: "free_of (\<lambda>t a. P t a \<or> Q t a) n = (free_of P n \<and> free_of Q n)"
  by (induction n) (auto simp: list_all_iff)

lemma kids_free_disj: "kids_free (\<lambda>t a. P t a \<or> Q t a) n = (kids_free P n \<and> kids_free Q n)"
  by (cases n) (auto simp: kids_free_def list_all_iff free_of_disj)

lemma free_of_modify:
  assumes "\<And>m. free_of P m \<Longrightarrow> free_of P (f m)"
  shows "free_of P n \<Longrightarrow> free_of P (modify_at p f n)"
proof (induction p arbitrary: n)
  case Nil then show ?case using assms by simp
next
  case (Cons i p)
  then show ?case
    by (cases n) (auto simp: list_all_iff dest!: set_update_subset_insert[THEN subsetD] intro: nth_mem)
qed

lemma kids_free_modify:
  assumes "\<And>m. free_of P m \<Longrightarrow> free_of P (f m)" and "\<And>m. kids_free P m \<Longrightarrow> kids_free P (f m)"
  shows "kids_free P n \<Longrightarrow> kids_free P (modify_at p f n)"
proof (cases p)
  case Nil then show "kids_free P n \<Longrightarrow> ?thesis" using assms(2) by simp
next
  case (Cons i q)
  assume kf: "kids_free P n"
  show ?thesis
  proof (cases n)
    case (Text s) then show ?thesis using Cons kf by simp
  next
    case (Elem t a ks)
    { assume i: "i < length ks"
      then have "free_of P (ks ! i)" using kf Elem by (auto simp: kids_free_def list_all_iff)
      then have "free_of P (modify_at q f (ks ! i))" using assms(1) by (rule free_of_modify[rotated])
      then have "list_all (free_of P) (ks[i := modify_at q f (ks ! i)])"
        using kf Elem by (auto simp: kids_free_def list_all_iff dest!: set_update_subset_insert[THEN subsetD]) }
    then show ?thesis using Cons Elem kf by (auto simp: kids_free_def)
  qed
qed

lemma free_of_child_to_end: "free_of P m \<Longrightarrow> free_of P (child_to_end i m)"
  by (cases m) (auto simp: list_all_iff dest: in_set_takeD in_set_dropD)

lemma kids_free_child_to_end: "kids_free P m \<Longrightarrow> kids_free P (child_to_end i m)"
  by (cases m) (auto simp: kids_free_def list_all_iff dest: in_set_takeD in_set_dropD)

lemma kids_free_move_to_end: "kids_free P n \<Longrightarrow> kids_free P (move_to_end p n)"
  unfolding move_to_end_def
  by (auto intro!: kids_free_modify free_of_child_to_end kids_free_child_to_end)

lemma kids_free_relocate: "kids_free P n \<Longrightarrow> kids_free P (relocate_user n)"
  by (auto simp: relocate_user_def kids_free_move_to_end split: option.splits)

lemma kids_free_remove_selected_keep:
  "kids_free Q n \<Longrightarrow> list_all (\<lambda>sel. length sel = 1) sels \<Longrightarrow> kids_free Q (remove_selected sels n)"
proof (induction sels arbitrary: n)
  case Nil then show ?case by simp
next
  case (Cons sel sels)
  then obtain c where "sel = [c]" by (cases sel) auto
  then show ?case using Cons by (simp add: decompose_select_single kids_free_prune_keep)
qed

lemma kids_free_remove_selected:
  "[c] \<in> set sels \<Longrightarrow> list_all (\<lambda>sel. length sel = 1) sels \<Longrightarrow>
   kids_free (matches c) (remove_selected sels n)"
proof (induction sels arbitrary: n)
  case Nil then show ?case by simp
next
  case (Cons sel sels)
  obtain d where d: "sel = [d]" using Cons.prems(2) by (cases sel) auto
  show ?case
  proof (cases "sel = [c]")
    case True
    then show ?thesis using Cons.prems
      by (simp add: decompose_select_single kids_free_prune kids_free_remove_selected_keep)
  next
    case False
    then show ?thesis using Cons d by simp
  qed
qed

lemma footer_landmark_alt:
  "footer_landmark = (\<lambda>t a. matches [Tag ''footer''] t a \<or> (matches [AttrEq ''role'' ''contentinfo''] t a
      \<or> (id_has_footer t a \<or> class_has_footer t a)))"
  by (auto simp: footer_landmark_def matches_def fun_eq_iff)

lemma no_footer_after_remove: "kids_free footer_landmark (remove_footers n)"
proof -
  let ?s1 = "remove_selected basic_selectors n"
  have sing: "list_all (\<lambda>sel. length sel = 1) basic_selectors"
    by (simp add: basic_selectors_def)
  have 1: "kids_free (matches [Tag ''footer'']) ?s1"
    by (rule kids_free_remove_selected[OF _ sing]) (simp add: basic_selectors_def)
  have 2: "kids_free (matches [AttrEq ''role'' ''contentinfo'']) ?s1"
    by (rule kids_free_remove_selected[OF _ sing]) (simp add: basic_selectors_def)
  show ?thesis
    unfolding footer_landmark_alt remove_footers_def Let_def decompose_find_all kids_free_disj
    using 1 2 by (simp add: kids_free_prune kids_free_prune_keep)
qed


lemma get_at_append:
  "get_at n (p @ q) = (case get_at n p of None \<Rightarrow> None | Some m \<Rightarrow> get_at m q)"
proof (induction p arbitrary: n)
  case Nil show ?case by simp
next
  case (Cons i p) then show ?case by (cases n) auto
qed

lemma get_at_modify: "get_at (modify_at p f n) p = map_option f (get_at n p)"
proof (induction p arbitrary: n)
  case Nil show ?case by simp
next
  case (Cons i p) then show ?case by (cases n) auto
qed

lemma find_kids_mem:
  "j < length ks \<Longrightarrow> (q, e) \<in> set (find_from P [] (ks ! j)) \<Longrightarrow>
   ((i + j) # q, e) \<in> set (find_kids P [] i ks)"
proof (induction ks arbitrary: i j)
  case Nil then show ?case by simp
next
  case (Cons k ks)
  show ?case
  proof (cases j)
    case 0
    then show ?thesis using Cons.prems by (force simp: find_from_shift[of P i k])
  next
    case (Suc j')
    then show ?thesis using Cons.IH[of j' "Suc i"] Cons.prems by auto
  qed
qed

lemma find_from_complete:
  "get_at n p = Some e \<Longrightarrow> hit P e \<Longrightarrow> (p, e) \<in> set (find_from P [] n)"
proof (induction p arbitrary: n)
  case Nil then show ?case by (cases n) auto
next
  case (Cons i p)
  then show ?case using find_kids_mem[of i _ p e P 0]
    by (cases n) (auto split: if_splits)
qed

lemma find_all_complete:
  "get_at n p = Some e \<Longrightarrow> hit P e \<Longrightarrow> p \<noteq> [] \<Longrightarrow> (p, e) \<in> set (find_all P n)"
  using find_from_complete[of n p e P] by (cases n) (auto simp: find_all_def)

lemma find_kids_sound:
  "r \<in> set (find_kids P [] i ks) \<Longrightarrow>
   \<exists>j q. fst r = (i + j) # q \<and> j < length ks \<and> (q, snd r) \<in> set (find_from P [] (ks ! j))"
proof (induction ks arbitrary: i)
  case Nil then show ?case by simp
next
  case (Cons k ks)
  from Cons.prems consider "r \<in> set (find_from P [i] k)" | "r \<in> set (find_kids P [] (Suc i) ks)"
    by auto
  then show ?case
  proof cases
    case 1
    then obtain r' where "r' \<in> set (find_from P [] k)" "r = (i # fst r', snd r')"
      by (auto simp: find_from_shift[of P i k])
    then show ?thesis by (intro exI[of _ 0] exI[of _ "fst r'"]) auto
  next
    case 2
    from Cons.IH[OF 2] obtain j q where
      "fst r = (Suc i + j) # q" "j < length ks" "(q, snd r) \<in> set (find_from P [] (ks ! j))" by blast
    then show ?thesis by (intro exI[of _ "Suc j"] exI[of _ q]) auto
  qed
qed

lemma find_from_sound:
  "r \<in> set (find_from P [] n) \<Longrightarrow> get_at n (fst r) = Some (snd r) \<and> hit P (snd r)"
proof (induction n arbitrary: r)
  case (Text s) then show ?case by simp
next
  case (Elem t a ks)
  from Elem.prems consider "r = ([], Elem t a ks)" "P t a" | "r \<in> set (find_kids P [] 0 ks)"
    by (auto split: if_splits)
  then show ?case
  proof cases
    case 1 then show ?thesis by simp
  next
    case 2
    from find_kids_sound[OF 2] obtain j q where
      jq: "fst r = j # q" "j < length ks" "(q, snd r) \<in> set (find_from P [] (ks ! j))" by auto
    from Elem.IH[of "ks ! j" "(q, snd r)"] jq show ?thesis by auto
  qed
qed

lemma find_all_sound:
  "r \<in> set (find_all P n) \<Longrightarrow> fst r \<noteq> [] \<and> get_at n (fst r) = Some (snd r) \<and> hit P (snd r)"
proof -
  assume r: "r \<in> set (find_all P n)"
  then obtain t a ks where n: "n = Elem t a ks" by (cases n) (auto simp: find_all_def)
  from r n have k: "r \<in> set (find_kids P [] 0 ks)" by (simp add: find_all_def)
  then have "r \<in> set (find_from P [] n)" using n by simp
  from find_from_sound[OF this] find_kids_nonempty_path[OF k] show ?thesis by simp
qed

lemma moved_is_last:
  assumes "get_at n (q @ [i]) = Some e"
  shows "get_at (move_to_end (q @ [i]) n) (q @ [length (children (the (get_at n q))) - 1]) = Some e
       \<and> is_last_child (move_to_end (q @ [i]) n) (q @ [length (children (the (get_at n q))) - 1])"
proof -
  from assms obtain m where m: "get_at n q = Some m" "get_at m [i] = Some e"
    by (auto simp: get_at_append split: option.splits)
  then obtain t a ks where ks: "m = Elem t a ks" "i < length ks" "ks ! i = e"
    by (cases m) (auto split: if_splits)
  have g: "get_at (move_to_end (q @ [i]) n) q = Some (child_to_end i m)"
    by (simp add: move_to_end_def get_at_modify m)
  have len: "length (take i ks @ drop (Suc i) ks @ [ks ! i]) = length ks" using ks by simp
  show ?thesis using ks g m
    by (auto simp: get_at_append is_last_child_def nth_append)
qed

lemma relocated_last:
  "select sel_user_panel (relocate_user n) \<noteq> [] \<Longrightarrow>
   list_ex (\<lambda>r. is_last_child (relocate_user n) (fst r)) (select sel_user_panel (relocate_user n))"
proof (cases "select sel_user_panel n")
  case Nil
  then show "select sel_user_panel (relocate_user n) \<noteq> [] \<Longrightarrow> ?thesis"
    by (simp add: relocate_user_def select_one_def)
next
  case (Cons r rs)
  let ?P = "matches [Cls ''panel'', Cls ''user'']"
  have sel: "select sel_user_panel = find_all ?P"
    by (simp add: sel_user_panel_def select_single fun_eq_iff)
  from Cons have "r \<in> set (find_all ?P n)" by (simp add: sel)
  from find_all_sound[OF this] have r: "fst r \<noteq> []" "get_at n (fst r) = Some (snd r)" "hit ?P (snd r)"
    by auto
  define q i where "q = butlast (fst r)" and "i = last (fst r)"
  then have p: "fst r = q @ [i]" using r(1) by simp
  have out: "relocate_user n = move_to_end (q @ [i]) n"
    using Cons p by (simp add: relocate_user_def select_one_def)
  let ?p = "q @ [length (children (the (get_at n q))) - 1]"
  from moved_is_last[of n q i "snd r"] r(2) p
  have ml: "get_at (relocate_user n) ?p = Some (snd r)" "is_last_child (relocate_user n) ?p"
    by (auto simp: out)
  from find_all_complete[OF ml(1) r(3)] have "(?p, snd r) \<in> set (select sel_user_panel (relocate_user n))"
    by (simp add: sel)
  with ml(2) show ?thesis unfolding list_ex_iff by (intro bexI[of _ "(?p, snd r)"]) simp_all
qed


subsection \<open>Mutations through references, path-free\<close>

lemma select_prefix:
  "select_from cs (pre @ p) n = map (\<lambda>r. (pre @ fst r, snd r)) (select_from cs p n)"
  "select_kids cs (pre @ p) i ks = map (\<lambda>r. (pre @ fst r, snd r)) (select_kids cs p i ks)"
  by (induction cs p n and cs p i ks arbitrary: pre and pre rule: select_from_select_kids.induct) auto

lemma select_nodes_path:
  "map snd (select_from cs p n) = map snd (select_from cs [] n)"
  using select_prefix(1)[of cs p "[]" n] by (simp add: comp_def)

lemma select_kids_nodes_index:
  "map snd (select_kids cs p i ks) = map snd (select_kids cs [] 0 ks)"
proof (induction ks arbitrary: i p)
  case Nil show ?case by simp
next
  case (Cons k ks)
  show ?case using Cons[of p "Suc i"] Cons[of "[]" "Suc 0"]
    by (simp add: select_nodes_path[of cs "p @ [i]" k] select_nodes_path[of cs "[0]" k])
qed

lemma select_kids_append:
  "select_kids cs p i (xs @ ys) = select_kids cs p i xs @ select_kids cs p (i + length xs) ys"
  by (induction xs arbitrary: i) auto


lemma free_of_mono: "(\<And>t a. P t a \<Longrightarrow> Q t a) \<Longrightarrow> free_of Q n \<Longrightarrow> free_of P n"
  by (induction n) (auto simp: list_all_iff)

lemma select_length_path: "length (select_from cs p n) = length (select_from cs [] n)"
  using arg_cong[OF select_nodes_path[of cs p n], of length] by simp

lemma select_kids_length: "length (select_kids cs p i ks) = length (select_kids cs [] 0 ks)"
  using arg_cong[OF select_kids_nodes_index[of cs p i ks], of length] by simp

lemma modify_at_Cons:
  "i < length ks \<Longrightarrow> modify_at (i # q) f (Elem t a ks) = Elem t a (ks[i := modify_at q f (ks ! i)])"
  by simp



lemma select_from_shift:
  "select_from cs [j] k = map (\<lambda>r. (j # fst r, snd r)) (select_from cs [] k)"
  using select_prefix(1)[of cs "[j]" "[]" k] by simp







lemma find_from_empty_path_indep: "(find_from P p n = []) = (find_from P [] n = [])"
  by (simp add: find_free)




















subsection \<open>Footer removal and the notes panel\<close>

text \<open>
  C8: in variant 9.1 the output of the synthesizer holds no footer landmark, for every
  base document; the same holds when the output is synthesized again; and in both
  outputs, when a notes panel is present, the notes panel that the synthesizer
  relocated is the last child of its parent.
\<close>

theorem footer_removal_idempotent:
  assumes "apply_fields_v9 soup fields1 label_lang = Inr out1"
    and "apply_fields_v9 out1 fields2 label_lang2 = Inr out2"
  shows "find_all footer_landmark out1 = [] \<and> find_all footer_landmark out2 = []
    \<and> (select sel_user_panel out1 \<noteq> [] \<longrightarrow>
         list_ex (\<lambda>r. is_last_child out1 (fst r)) (select sel_user_panel out1))
    \<and> (select sel_user_panel out2 \<noteq> [] \<longrightarrow>
         list_ex (\<lambda>r. is_last_child out2 (fst r)) (select sel_user_panel out2))"
proof -
  have shape: "\<exists>n. out = relocate_user (remove_footers n)"
    if "apply_fields_v9 s f l = Inr out" for s f l out
    using that by (auto simp: apply_fields_v9_def synthesize_v9_def Let_def split: if_splits)
  have main: "find_all footer_landmark (relocate_user (remove_footers n)) = []" for n
    by (simp add: find_all_empty kids_free_relocate no_footer_after_remove)
  from shape[OF assms(1)] obtain n1 where n1: "out1 = relocate_user (remove_footers n1)" ..
  from shape[OF assms(2)] obtain n2 where n2: "out2 = relocate_user (remove_footers n2)" ..
  show ?thesis unfolding n1 n2 using main relocated_last by blast
qed

theorem footer_removal_idempotent_witness:
  "apply_fields_v9 example_slide DEFAULTS_v9 None
     = Inr (synthesize_v9 example_slide (\<lambda>k. the (DEFAULTS_v9 k)) None)
   \<and> apply_fields_v9 (synthesize_v9 example_slide (\<lambda>k. the (DEFAULTS_v9 k)) None) DEFAULTS_v9 (Some ''en'')
     = Inr (synthesize_v9 (synthesize_v9 example_slide (\<lambda>k. the (DEFAULTS_v9 k)) None)
              (\<lambda>k. the (DEFAULTS_v9 k)) (Some ''en''))
   \<and> find_all footer_landmark example_slide \<noteq> []
   \<and> find_all footer_landmark (synthesize_v9 example_slide (\<lambda>k. the (DEFAULTS_v9 k)) None) = []
   \<and> select sel_user_panel (synthesize_v9 example_slide (\<lambda>k. the (DEFAULTS_v9 k)) None) \<noteq> []
   \<and> list_ex (\<lambda>r. is_last_child (synthesize_v9 example_slide (\<lambda>k. the (DEFAULTS_v9 k)) None) (fst r))
        (select sel_user_panel (synthesize_v9 example_slide (\<lambda>k. the (DEFAULTS_v9 k)) None))"
proof -
  have keys: "list_all (\<lambda>k. DEFAULTS_v9 k \<noteq> None) FIELD_KEYS_v9"
    by code_simp
  have a1: "apply_fields_v9 example_slide DEFAULTS_v9 None
     = Inr (synthesize_v9 example_slide (\<lambda>k. the (DEFAULTS_v9 k)) None)"
    using keys by (simp add: apply_fields_v9_def)
  have a2: "apply_fields_v9 (synthesize_v9 example_slide (\<lambda>k. the (DEFAULTS_v9 k)) None) DEFAULTS_v9 (Some ''en'')
     = Inr (synthesize_v9 (synthesize_v9 example_slide (\<lambda>k. the (DEFAULTS_v9 k)) None)
              (\<lambda>k. the (DEFAULTS_v9 k)) (Some ''en''))"
    using keys by (simp add: apply_fields_v9_def)
  have before: "find_all footer_landmark example_slide \<noteq> []"
    by code_simp
  have present: "select sel_user_panel (synthesize_v9 example_slide (\<lambda>k. the (DEFAULTS_v9 k)) None) \<noteq> []"
    by code_simp
  from footer_removal_idempotent [OF a1 a2] a1 a2 before present show ?thesis by blast
qed

subsection \<open>The steps of the synthesizer, path-free\<close>










subsection \<open>Queries on lists of nodes\<close>





lemma nodes_from_single:
  "nodes_from [c] (Elem t a ks) = (if matches c t a then [Elem t a ks] else []) @ nodes_kids [c] ks"
  by (simp add: nodes_from_def nodes_kids_def)

lemma nodes_from_chain:
  "nodes_from (c # d # cs) (Elem t a ks) = nodes_kids (if matches c t a then d # cs else c # d # cs) ks"
  by (simp add: nodes_from_def nodes_kids_def)



lemma length_select_from: "length (select_from cs p x) = length (nodes_from cs x)"
  using select_length_path[of cs p x] by (simp add: nodes_from_def)

lemma length_select_kids: "length (select_kids cs p i xs) = length (nodes_kids cs xs)"
  using select_kids_length[of cs p i xs] by (simp add: nodes_kids_def)



lemma select_from_Nil_chain: "select_from [] p n = []"
  by (cases n) auto

lemma select_kids_Nil_chain: "select_kids [] p i ks = []"
  by (induction ks arbitrary: i) (auto simp: select_from_Nil_chain)

lemma nodes_pass:
  "list_all (\<lambda>c. \<not> matches c t a) cs \<Longrightarrow> nodes_from cs (Elem t a ks) = nodes_kids cs ks"
proof (cases cs)
  case Nil then show ?thesis by (simp add: nodes_from_def nodes_kids_def select_kids_Nil_chain)
next
  case (Cons c ds)
  assume "list_all (\<lambda>c. \<not> matches c t a) cs"
  then show ?thesis using Cons by (cases ds) (simp_all add: nodes_from_single nodes_from_chain)
qed

lemma upd_pass:
  "list_all (\<lambda>c. \<not> matches c t a) cs \<Longrightarrow> upd_from cs k f (Elem t a ks) = Elem t a (upd_kids cs k f ks)"
proof (cases cs)
  case Nil
  have "upd_kids [] k f ks = ks" for k by (induction ks arbitrary: k) (simp_all add: select_from_Nil_chain)
  then show ?thesis using Nil by simp
next
  case (Cons c ds)
  assume "list_all (\<lambda>c. \<not> matches c t a) cs"
  then show ?thesis using Cons by (cases ds) simp_all
qed

lemma cut_pass:
  "list_all (\<lambda>c. \<not> matches c t a) cs \<Longrightarrow> cut_from cs m (Elem t a ks) = [Elem t a (cut_kids cs m ks)]"
proof (cases cs)
  case Nil
  have "cut_from [] m n = [n]" for m n by (cases n) simp_all
  then have "cut_kids [] m ks = ks" for m by (induction ks arbitrary: m) simp_all
  then show ?thesis using Nil by simp
next
  case (Cons c ds)
  assume "list_all (\<lambda>c. \<not> matches c t a) cs"
  then show ?thesis using Cons by (cases ds) simp_all
qed


















subsection \<open>The parts of a slide and the queries\<close>



lemma shy_free: "shy P \<Longrightarrow> plain x \<Longrightarrow> free_of P x"
  unfolding plain_def shy_def using free_of_mono[of P loud x] by blast

lemma shy_frees: "shy P \<Longrightarrow> list_all plain xs \<Longrightarrow> list_all (free_of P) xs"
  by (simp add: list_all_iff shy_free)

lemma elem_free:
  "shy P \<Longrightarrow> misses P (t, None) \<Longrightarrow> calm a \<Longrightarrow> list_all plain ks \<Longrightarrow> free_of P (Elem t a ks)"
  by (simp add: misses_def shy_frees)




lemma flat_sections_append: "flat_sections (xs @ ys) = flat_sections xs @ flat_sections ys"
  by (simp add: flat_sections_def)






lemma tokens_literals:
  "tokens ''section'' = [''section'']"
  "tokens ''side-label'' = [''side-label'']"
  "tokens ''tag'' = [''tag'']"
  "tokens ''pagenum'' = [''pagenum'']"
  "tokens ''panel left'' = [''panel'', ''left'']"
  "tokens ''panel right'' = [''panel'', ''right'']"
  "tokens ''panel user'' = [''panel'', ''user'']"
  by code_simp+


lemma class_list_class: "class_list ((''class'', v) # xa) = tokens v"
  by (simp add: class_list_def)

lemma matches_Tag: "matches [Tag x] t a = (t = x)"
  by (simp add: matches_def)

lemma matches_Cls: "matches [Cls x] t a = (x \<in> set (class_list a))"
  by (simp add: matches_def)

lemma matches_Cls2: "matches [Cls x, Cls y] t a = (x \<in> set (class_list a) \<and> y \<in> set (class_list a))"
  by (simp add: matches_def)

lemma calm_classes:
  "calm a \<Longrightarrow> ''panel'' \<notin> set (class_list a)"
  "calm a \<Longrightarrow> ''side-label'' \<notin> set (class_list a)"
  "calm a \<Longrightarrow> ''tag'' \<notin> set (class_list a)"
  "calm a \<Longrightarrow> ''section'' \<notin> set (class_list a)"
  "calm a \<Longrightarrow> ''pagenum'' \<notin> set (class_list a)"
  by (simp_all add: calm_def reserved_classes_def)



lemmas match_simps = matches_Tag matches_Cls matches_Cls2 class_list_class tokens_literals calm_classes















lemma sections_ok_set_para:
  "sections_ok secs \<Longrightarrow> list_all plain new \<Longrightarrow> sections_ok (set_para k new secs)"
  by (auto simp: sections_ok_def set_para_def list_all_length nth_list_update section_ok_def)


lemma sections_ok_take: "sections_ok secs \<Longrightarrow> sections_ok (take m secs)"
  by (auto simp: sections_ok_def list_all_iff dest: in_set_takeD)

lemma sections_gaps_plain: "sections_ok secs \<Longrightarrow> list_all plain (concat (map fst secs))"
  by (induction secs) (simp_all add: sections_ok_def)

lemma sections_ok_drop: "sections_ok secs \<Longrightarrow> sections_ok (drop m secs)"
  by (auto simp: sections_ok_def list_all_iff dest: in_set_dropD)














subsection \<open>Queries and mutations on a well-formed slide\<close>




























lemma not_hit_notes: "\<not> hit (matches [Tag ''footer'']) (mk_notes n)"
  by (simp add: mk_notes_def match_simps)















lemma ok_steps_notes:
  assumes "slide_ok c" "notes_panel c = Some n"
  shows "list_all plain new \<Longrightarrow> slide_ok (c\<lparr>notes_panel := Some (n\<lparr>notes_sections := set_para k new (notes_sections n)\<rparr>)\<rparr>)"
    and "slide_ok (c\<lparr>notes_panel := Some (n\<lparr>notes_sections := take m (notes_sections n),
            notes_post := concat (map fst (drop m (notes_sections n))) @ notes_post n\<rparr>)\<rparr>)"
  using assms
  by (simp_all add: slide_ok_def notes_ok_def sections_ok_set_para sections_ok_take sections_gaps_plain
      sections_ok_drop)

lemma ok_steps_footer:
  assumes "slide_ok c" "page_footer c = Some f"
  shows "list_all plain new \<Longrightarrow> slide_ok (c\<lparr>page_footer := Some (f\<lparr>page_number := new\<rparr>)\<rparr>)"
    and "list_all plain new \<Longrightarrow> slide_ok (c\<lparr>page_footer := Some (f\<lparr>summary := new\<rparr>)\<rparr>)"
  using assms
  by (simp_all add: slide_ok_def footer_ok_def)

subsection \<open>The synthesizer on a well-formed slide\<close>









lemma set_para_length: "length (set_para k new secs) = length secs"
  by (simp add: set_para_def)

lemma set_heading_length: "length (set_heading k new secs) = length secs"
  by (simp add: set_heading_def)































subsection \<open>Frame, trimming and target language on well-formed slides\<close>













lemma headings_write_paras:
  "map (\<lambda>gs. heading (snd gs)) (write_paras W vs secs) = map (\<lambda>gs. heading (snd gs)) secs"
  by (induction W vs secs rule: write_paras.induct) simp_all



















subsection \<open>Extraction on well-formed slides\<close>





















lemma text_after_v9:
  "text_with_newlines (set_children (write_rich v) (Elem t a ks)) = replace_cr (replace_crlf v)"
  by (simp add: write_rich_def decode_encode)




lemma text_after_v5:
  "get_text_strip (set_children (write_string v) (Elem t a ks)) = py_strip v"
  by (simp add: write_string_def get_text_strip_def)










end
